theory Spec2Isabelle
  imports Complex_Main
begin

section \<open>Strings as the source uses them\<close>

text \<open>
  A JavaScript string is modelled as a \<^typ>\<open>string\<close> whose characters are the code units
  below 256. \<open>strIncludes\<close> is \<open>String.prototype.includes\<close>, \<open>startsWith\<close> is
  \<open>String.prototype.startsWith\<close> and \<open>toLowerCase\<close> lowers the letters of that range
  (A to Z, and the accented capitals 0xC0 to 0xDE except the multiplication sign 0xD7).
\<close>

definition strIncludes :: "string \<Rightarrow> string \<Rightarrow> bool" where
  "strIncludes hay needle =
     list_ex (\<lambda>i. take (length needle) (drop i hay) = needle) [0..<Suc (length hay)]"

definition startsWith :: "string \<Rightarrow> string \<Rightarrow> bool" where
  "startsWith s p = (take (length p) s = p)"

definition toLowerCaseChar :: "char \<Rightarrow> char" where
  "toLowerCaseChar c =
     (let n = (of_char c :: nat)
      in if (65 \<le> n \<and> n \<le> 90) \<or> (192 \<le> n \<and> n \<le> 222 \<and> n \<noteq> 215)
         then char_of (n + 32) else c)"

definition toLowerCase :: "string \<Rightarrow> string" where
  "toLowerCase s = map toLowerCaseChar s"

definition nl :: "string" where
  "nl = [CHR 0x0A]"

fun showNat :: "nat \<Rightarrow> string" where
  "showNat n =
     (if n < 10 then [char_of (48 + n)]
      else showNat (n div 10) @ [char_of (48 + n mod 10)])"

declare showNat.simps [simp del]

section \<open>Task router: keyword classification\<close>

text \<open>
  The three regular expressions of \<open>Orchestrator.classifyTask\<close> have the shape
  \<open>/\b(k1|k2|...)\b/\<close>. \<open>\b\<close> holds at a position when exactly one of the two
  neighbouring characters is a word character \<open>[A-Za-z0-9_]\<close> (a missing neighbour
  counts as a non-word character). \<open>test\<close> succeeds when some position carries a
  boundary, one of the keywords, and a boundary again.
\<close>

definition isWordChar :: "char \<Rightarrow> bool" where
  "isWordChar c =
     (let n = (of_char c :: nat)
      in (48 \<le> n \<and> n \<le> 57) \<or> (65 \<le> n \<and> n \<le> 90) \<or> n = 95 \<or> (97 \<le> n \<and> n \<le> 122))"

definition wordBoundary :: "string \<Rightarrow> nat \<Rightarrow> bool" where
  "wordBoundary s p =
     ((0 < p \<and> p \<le> length s \<and> isWordChar (s ! (p - 1)))
        \<noteq> (p < length s \<and> isWordChar (s ! p)))"

definition matchesAt :: "string \<Rightarrow> string \<Rightarrow> nat \<Rightarrow> bool" where
  "matchesAt kw s i =
     (wordBoundary s i \<and> take (length kw) (drop i s) = kw \<and> wordBoundary s (i + length kw))"

definition keywordTest :: "string list \<Rightarrow> string \<Rightarrow> bool" where
  "keywordTest kws s =
     list_ex (\<lambda>i. list_ex (\<lambda>kw. matchesAt kw s i) kws) [0..<Suc (length s)]"

definition systemKeywords :: "string list" where
  "systemKeywords = [''system'', ''memory'', ''cpu'', ''platform'', ''uptime'', ''health'']"

definition fileKeywords :: "string list" where
  "fileKeywords = [''file'', ''read'', ''analyze'', ''content'']"

definition changeKeywords :: "string list" where
  "changeKeywords = [''write'', ''create'', ''propose'', ''change'', ''modify'', ''update'']"

datatype TaskType = SystemDiagnostic | FileAnalysis | ChangeProposal | Composite

definition systemRegexTest :: "string \<Rightarrow> bool" where
  "systemRegexTest lowerTask = keywordTest systemKeywords lowerTask"

definition fileRegexTest :: "string \<Rightarrow> bool" where
  "fileRegexTest lowerTask = keywordTest fileKeywords lowerTask"

definition changeRegexTest :: "string \<Rightarrow> bool" where
  "changeRegexTest lowerTask = keywordTest changeKeywords lowerTask"

definition classifyTask :: "string \<Rightarrow> TaskType" where
  "classifyTask task =
     (let lowerTask = toLowerCase task;
          hasSystemKeywords = systemRegexTest lowerTask;
          hasFileKeywords = fileRegexTest lowerTask;
          hasChangeKeywords = changeRegexTest lowerTask;
          keywordCount = length (filter id [hasSystemKeywords, hasFileKeywords, hasChangeKeywords])
      in if keywordCount > 1 then Composite
         else if hasChangeKeywords then ChangeProposal
         else if hasFileKeywords then FileAnalysis
         else if hasSystemKeywords then SystemDiagnostic
         else SystemDiagnostic)"

text \<open>
  The number of keyword categories present in a task text, for stating the
  classification rule.
\<close>

definition matchedCategories :: "string \<Rightarrow> nat" where
  "matchedCategories t =
     length (filter id [systemRegexTest (toLowerCase t), fileRegexTest (toLowerCase t),
                        changeRegexTest (toLowerCase t)])"

section \<open>Task router: running agents\<close>

text \<open>
  A value thrown by JavaScript code is either an \<open>Error\<close> object carrying a message or
  anything else; the handlers of the source tell the two apart with \<open>instanceof Error\<close>.
\<close>

datatype thrown = Error string | NonError

definition errorMessage :: "thrown \<Rightarrow> string" where
  "errorMessage err = (case err of Error m \<Rightarrow> m | NonError \<Rightarrow> ''Unknown error'')"

record 'c AgentRunResult =
  arr_output :: string
  arr_toolCalls :: "'c list"

record 'c AgentExecutionResult =
  aer_agentName :: string
  aer_output :: string
  aer_toolCalls :: "'c list"
  aer_durationMs :: int

record OrchestratorInput =
  oi_task :: string
  oi_taskType :: "TaskType option"
  oi_context :: "string option"

record 'c OrchestratorResult =
  or_success :: bool
  or_taskType :: TaskType
  or_agentResults :: "'c AgentExecutionResult list"
  or_finalOutput :: string
  or_totalDurationMs :: int
  or_error :: "string option"

datatype AgentKind = SystemInspector | FileAnalyst | ChangeProposer

text \<open>
  What the orchestrator cannot compute is taken from outside: the liveness probe of the
  gateway client (\<open>MCPClient.healthCheck\<close>, which catches every failure and answers a
  boolean), the creation and run of a language-model agent (which answers a result or
  throws), and the clock \<open>Date.now()\<close>. All three read and change an outside world \<open>'w\<close>.
\<close>

record ('c, 'w) Collaborators =
  healthCheck :: "'w \<Rightarrow> bool \<times> 'w"
  agentRun :: "AgentKind \<Rightarrow> string \<Rightarrow> 'w \<Rightarrow> (thrown + 'c AgentRunResult) \<times> 'w"
  dateNow :: "'w \<Rightarrow> int"

text \<open>
  The state threaded through a run is the outside world together with the list of agent
  invocations made so far, each with the task text it received and what came back.
\<close>

record 'c Invocation =
  invoked :: AgentKind
  received :: string
  outcome :: "thrown + 'c AgentRunResult"

type_synonym ('c, 'w) RunState = "'c Invocation list \<times> 'w"

definition invokeAgent ::
  "('c, 'w) Collaborators \<Rightarrow> AgentKind \<Rightarrow> string \<Rightarrow> ('c, 'w) RunState
     \<Rightarrow> (thrown + 'c AgentRunResult) \<times> ('c, 'w) RunState" where
  "invokeAgent deps k t s =
     (let (r, w') = agentRun deps k t (snd s)
      in (r, (fst s @ [\<lparr>invoked = k, received = t, outcome = r\<rparr>], w')))"

definition runAgentAs ::
  "('c, 'w) Collaborators \<Rightarrow> AgentKind \<Rightarrow> string \<Rightarrow> string \<Rightarrow> ('c, 'w) RunState
     \<Rightarrow> (thrown + 'c AgentExecutionResult) \<times> ('c, 'w) RunState" where
  "runAgentAs deps k name t s =
     (let startTime = dateNow deps (snd s);
          (r, s') = invokeAgent deps k t s
      in case r of
           Inl err \<Rightarrow> (Inl err, s')
         | Inr result \<Rightarrow>
             (Inr \<lparr>aer_agentName = name, aer_output = arr_output result,
                   aer_toolCalls = arr_toolCalls result,
                   aer_durationMs = dateNow deps (snd s') - startTime\<rparr>, s'))"

definition runSystemDiagnostic ::
  "('c, 'w) Collaborators \<Rightarrow> string \<Rightarrow> ('c, 'w) RunState
     \<Rightarrow> (thrown + 'c AgentExecutionResult) \<times> ('c, 'w) RunState" where
  "runSystemDiagnostic deps t s = runAgentAs deps SystemInspector ''SystemInspector'' t s"

definition runFileAnalysis ::
  "('c, 'w) Collaborators \<Rightarrow> string \<Rightarrow> ('c, 'w) RunState
     \<Rightarrow> (thrown + 'c AgentExecutionResult) \<times> ('c, 'w) RunState" where
  "runFileAnalysis deps t s = runAgentAs deps FileAnalyst ''FileAnalyst'' t s"

definition runChangeProposal ::
  "('c, 'w) Collaborators \<Rightarrow> string \<Rightarrow> ('c, 'w) RunState
     \<Rightarrow> (thrown + 'c AgentExecutionResult) \<times> ('c, 'w) RunState" where
  "runChangeProposal deps t s = runAgentAs deps ChangeProposer ''ChangeProposer'' t s"

definition withContext :: "string \<Rightarrow> string \<Rightarrow> string" where
  "withContext t accumulatedContext = t @ nl @ nl @ ''Context: '' @ accumulatedContext"

text \<open>
  \<open>runCompositeWorkflow\<close>: three guarded steps in sequence. A step that throws ends the
  function with that exception; \<open>results\<close> and \<open>accumulatedContext\<close> are its local
  variables and are lost with it.
\<close>

definition runCompositeWorkflow ::
  "('c, 'w) Collaborators \<Rightarrow> OrchestratorInput \<Rightarrow> ('c, 'w) RunState
     \<Rightarrow> (thrown + 'c AgentExecutionResult list) \<times> ('c, 'w) RunState" where
  "runCompositeWorkflow deps input s =
     (let lowerTask = toLowerCase (oi_task input);
          needsSystemCheck = systemRegexTest lowerTask;
          needsFileAnalysis = fileRegexTest lowerTask;
          needsChangeProposal = changeRegexTest lowerTask;
          accumulatedContext = (case oi_context input of Some c \<Rightarrow> c | None \<Rightarrow> []);
          step1 =
            (if needsSystemCheck
             then (case runSystemDiagnostic deps (withContext (oi_task input) accumulatedContext) s of
                     (Inl err, s1) \<Rightarrow> (Inl err, s1)
                   | (Inr result, s1) \<Rightarrow>
                       (Inr ([result],
                             accumulatedContext @ nl @ nl @ ''System Info: '' @ aer_output result),
                        s1))
             else (Inr ([], accumulatedContext), s));
          step2 =
            (case step1 of
               (Inl err, s1) \<Rightarrow> (Inl err, s1)
             | (Inr (results, acc), s1) \<Rightarrow>
                 if needsFileAnalysis
                 then (case runFileAnalysis deps (withContext (oi_task input) acc) s1 of
                         (Inl err, s2) \<Rightarrow> (Inl err, s2)
                       | (Inr result, s2) \<Rightarrow>
                           (Inr (results @ [result],
                                 acc @ nl @ nl @ ''File Analysis: '' @ aer_output result),
                            s2))
                 else (Inr (results, acc), s1));
          step3 =
            (case step2 of
               (Inl err, s2) \<Rightarrow> (Inl err, s2)
             | (Inr (results, acc), s2) \<Rightarrow>
                 if needsChangeProposal
                 then (case runChangeProposal deps (withContext (oi_task input) acc) s2 of
                         (Inl err, s3) \<Rightarrow> (Inl err, s3)
                       | (Inr result, s3) \<Rightarrow> (Inr (results @ [result], acc), s3))
                 else (Inr (results, acc), s2))
      in case step3 of
           (Inl err, s3) \<Rightarrow> (Inl err, s3)
         | (Inr (results, acc), s3) \<Rightarrow> (Inr results, s3))"

definition taskTypeName :: "TaskType \<Rightarrow> string" where
  "taskTypeName t =
     (case t of SystemDiagnostic \<Rightarrow> ''system-diagnostic'' | FileAnalysis \<Rightarrow> ''file-analysis''
      | ChangeProposal \<Rightarrow> ''change-proposal'' | Composite \<Rightarrow> ''composite'')"

fun joinWith :: "string \<Rightarrow> string list \<Rightarrow> string" where
  "joinWith sep [] = []"
| "joinWith sep [x] = x"
| "joinWith sep (x # y # ys) = x @ sep @ joinWith sep (y # ys)"

definition synthesizeOutput :: "TaskType \<Rightarrow> 'c AgentExecutionResult list \<Rightarrow> string" where
  "synthesizeOutput tt results =
     (if length results = 0 then ''No agents were invoked.''
      else if length results = 1 then aer_output (hd results)
      else (let sections =
                  map (\<lambda>(i, r). ''## '' @ showNat (i + 1) @ ''. '' @ aer_agentName r @ nl @ nl
                                   @ aer_output r)
                      (zip [0..<length results] results)
            in ''# Orchestration Results ('' @ taskTypeName tt @ '')'' @ nl @ nl
                 @ joinWith (nl @ nl @ ''---'' @ nl @ nl) sections))"

text \<open>
  \<open>Orchestrator.run\<close>. \<open>agentResults\<close> starts empty and is only extended after the
  awaited agent call (or the whole composite workflow) has returned, so in the
  \<open>catch\<close> branch it still is the empty list it started as.
\<close>

definition run ::
  "('c, 'w) Collaborators \<Rightarrow> OrchestratorInput \<Rightarrow> ('c, 'w) RunState
     \<Rightarrow> 'c OrchestratorResult \<times> ('c, 'w) RunState" where
  "run deps input s =
     (let startTime = dateNow deps (snd s);
          agentResults0 = [];
          (healthy, w1) = healthCheck deps (snd s);
          s1 = (fst s, w1)
      in if \<not> healthy
         then (\<lparr>or_success = False, or_taskType = SystemDiagnostic, or_agentResults = [],
                or_finalOutput = [], or_totalDurationMs = dateNow deps w1 - startTime,
                or_error = Some ''MCP server is not available. Please ensure it is running.''\<rparr>, s1)
         else
           (let tt = (case oi_taskType input of Some t \<Rightarrow> t | None \<Rightarrow> classifyTask (oi_task input));
                (pushed, s2) =
                  (case tt of
                     SystemDiagnostic \<Rightarrow>
                       (case runSystemDiagnostic deps (oi_task input) s1 of
                          (Inl err, s') \<Rightarrow> (Inl err, s')
                        | (Inr r, s') \<Rightarrow> (Inr (agentResults0 @ [r]), s'))
                   | FileAnalysis \<Rightarrow>
                       (case runFileAnalysis deps (oi_task input) s1 of
                          (Inl err, s') \<Rightarrow> (Inl err, s')
                        | (Inr r, s') \<Rightarrow> (Inr (agentResults0 @ [r]), s'))
                   | ChangeProposal \<Rightarrow>
                       (case runChangeProposal deps (oi_task input) s1 of
                          (Inl err, s') \<Rightarrow> (Inl err, s')
                        | (Inr r, s') \<Rightarrow> (Inr (agentResults0 @ [r]), s'))
                   | Composite \<Rightarrow>
                       (case runCompositeWorkflow deps input s1 of
                          (Inl err, s') \<Rightarrow> (Inl err, s')
                        | (Inr rs, s') \<Rightarrow> (Inr (agentResults0 @ rs), s')))
            in case pushed of
                 Inr rs \<Rightarrow>
                   (\<lparr>or_success = True, or_taskType = tt, or_agentResults = rs,
                     or_finalOutput = synthesizeOutput tt rs,
                     or_totalDurationMs = dateNow deps (snd s2) - startTime, or_error = None\<rparr>, s2)
               | Inl err \<Rightarrow>
                   (\<lparr>or_success = False,
                     or_taskType = (case oi_taskType input of Some t \<Rightarrow> t | None \<Rightarrow> SystemDiagnostic),
                     or_agentResults = agentResults0, or_finalOutput = [],
                     or_totalDurationMs = dateNow deps (snd s2) - startTime,
                     or_error = Some (errorMessage err)\<rparr>, s2)))"

section \<open>Gateway: core types\<close>

text \<open>
  Request bodies are JSON values. Numbers are rationals (the rounding of doubles is not
  modelled); an object is its list of members, and a member read takes the last member of
  that name, as \<open>JSON.parse\<close> does.
\<close>

datatype json =
    JNull
  | JBool bool
  | JNum rat
  | JStr string
  | JArr "json list"
  | JObj "(string \<times> json) list"

definition member :: "(string \<times> json) list \<Rightarrow> string \<Rightarrow> json option" where
  "member kvs k = map_of (rev kvs) k"

definition jsonTypeName :: "json \<Rightarrow> string" where
  "jsonTypeName v =
     (case v of JNull \<Rightarrow> ''null'' | JBool b \<Rightarrow> ''boolean'' | JNum r \<Rightarrow> ''number''
      | JStr s \<Rightarrow> ''string'' | JArr xs \<Rightarrow> ''array'' | JObj kvs \<Rightarrow> ''object'')"

text \<open>
  A Zod issue is the path of the offending member and a message. The messages written in
  the source are kept; the others stand for the library's default wording.
\<close>

datatype ZodIssue = ZodIssue "string list" string

definition invalidType :: "string list \<Rightarrow> string \<Rightarrow> json option \<Rightarrow> ZodIssue list" where
  "invalidType p expected v =
     (case v of
        None \<Rightarrow> [ZodIssue p ''Required'']
      | Some j \<Rightarrow> [ZodIssue p (''Expected '' @ expected @ '', received '' @ jsonTypeName j)])"

datatype ToolSafety = Safe | Dangerous

record ExecutionContext =
  dryRun :: bool
  ctx_timestamp :: int
  ctx_requestId :: string

record 'o ToolExecutionResult =
  ter_success :: bool
  ter_data :: "'o option"
  ter_error :: "string option"
  ter_simulatedAction :: "string option"

text \<open>
  A tool definition carries its input schema as the parse function of that schema. An
  executor reads and changes the host \<open>'h\<close> it runs on and either returns a result or
  throws.
\<close>

record 'i ToolDefinition =
  td_name :: string
  td_description :: string
  td_intent :: string
  td_inputSchema :: "(string \<times> json) list \<Rightarrow> ZodIssue list + 'i"
  td_safety :: ToolSafety

type_synonym ('i, 'o, 'h) ToolExecutor =
  "'i \<Rightarrow> ExecutionContext \<Rightarrow> 'h \<Rightarrow> (thrown + 'o ToolExecutionResult) \<times> 'h"

record ('i, 'o, 'h) RegisteredTool =
  definition_of :: "'i ToolDefinition"
  executor :: "('i, 'o, 'h) ToolExecutor"

record ToolCallRequest =
  req_tool :: string
  req_inputs :: "(string \<times> json) list"
  req_intent :: "string option"

text \<open>
  \<open>ToolCallRequestSchema\<close>: an object with a string \<open>tool\<close>, a record \<open>inputs\<close> that
  defaults to the empty object, and an optional string \<open>intent\<close>. Members the schema does
  not name are dropped by the parse.
\<close>

definition ToolCallRequestSchema :: "json \<Rightarrow> ZodIssue list + ToolCallRequest" where
  "ToolCallRequestSchema body =
     (case body of
        JObj kvs \<Rightarrow>
          (let toolIssues = (case member kvs ''tool'' of
                               Some (JStr s) \<Rightarrow> []
                             | other \<Rightarrow> invalidType [''tool''] ''string'' other);
               inputsIssues = (case member kvs ''inputs'' of
                                 None \<Rightarrow> []
                               | Some (JObj ms) \<Rightarrow> []
                               | other \<Rightarrow> invalidType [''inputs''] ''object'' other);
               intentIssues = (case member kvs ''intent'' of
                                 None \<Rightarrow> []
                               | Some (JStr s) \<Rightarrow> []
                               | other \<Rightarrow> invalidType [''intent''] ''string'' other);
               issues = toolIssues @ inputsIssues @ intentIssues
           in if issues \<noteq> [] then Inl issues
              else Inr \<lparr>req_tool = (case member kvs ''tool'' of Some (JStr s) \<Rightarrow> s | other \<Rightarrow> []),
                        req_inputs = (case member kvs ''inputs'' of Some (JObj ms) \<Rightarrow> ms
                                      | other \<Rightarrow> []),
                        req_intent = (case member kvs ''intent'' of Some (JStr s) \<Rightarrow> Some s
                                      | other \<Rightarrow> None)\<rparr>)
      | other \<Rightarrow> Inl (invalidType [] ''object'' (Some other)))"

record ('o) ToolCallResponse =
  tcr_tool :: string
  tcr_success :: bool
  tcr_result :: "'o option"
  tcr_error :: "string option"
  tcr_dryRun :: bool
  tcr_timestamp :: int
  tcr_requestId :: string
  tcr_simulatedAction :: "string option"

datatype AuditResult = AuditSuccess | AuditError

record 'i AuditLogEntry =
  audit_timestamp :: int
  audit_requestId :: string
  audit_toolName :: string
  audit_intent :: string
  audit_inputs :: 'i
  audit_result :: AuditResult
  audit_dryRun :: bool
  audit_error :: "string option"
  audit_durationMs :: int

section \<open>POSIX path functions of the runtime\<close>

text \<open>
  The executors call \<open>normalize\<close>, \<open>join\<close> and \<open>resolve\<close> of the runtime's POSIX path
  module. Its \<open>normalizeString\<close> walks the characters and keeps the text built so far;
  here the same walk is made over the segments between slashes: an empty segment and
  \<open>.\<close> are skipped, \<open>..\<close> removes the last segment kept unless there is none or it is
  itself \<open>..\<close> (then \<open>..\<close> is kept when \<open>allowAboveRoot\<close> holds and dropped
  otherwise), any other segment is kept; the kept segments are joined by slashes.
\<close>

fun splitSlash :: "string \<Rightarrow> string list" where
  "splitSlash [] = [[]]"
| "splitSlash (c # cs) =
     (if c = CHR ''/'' then [] # splitSlash cs
      else (case splitSlash cs of [] \<Rightarrow> [[c]] | seg # segs \<Rightarrow> (c # seg) # segs))"

definition normalizeStep :: "bool \<Rightarrow> string list \<Rightarrow> string \<Rightarrow> string list" where
  "normalizeStep allowAboveRoot res seg =
     (if seg = [] \<or> seg = ''.'' then res
      else if seg = ''..''
      then (if res \<noteq> [] \<and> last res \<noteq> ''..'' then butlast res
            else if allowAboveRoot then res @ [''..''] else res)
      else res @ [seg])"

definition normalizeString :: "string \<Rightarrow> bool \<Rightarrow> string" where
  "normalizeString path allowAboveRoot =
     joinWith ''/'' (foldl (normalizeStep allowAboveRoot) [] (splitSlash path))"

definition pathNormalize :: "string \<Rightarrow> string" where
  "pathNormalize path =
     (if length path = 0 then ''.''
      else
        (let isAbsolute = (hd path = CHR ''/'');
             trailingSeparator = (last path = CHR ''/'');
             p = normalizeString path (\<not> isAbsolute)
         in if length p = 0
            then (if isAbsolute then ''/'' else if trailingSeparator then ''./'' else ''.'')
            else (let p' = (if trailingSeparator then p @ ''/'' else p)
                  in if isAbsolute then ''/'' @ p' else p')))"

definition pathJoin :: "string list \<Rightarrow> string" where
  "pathJoin args =
     (let parts = filter (\<lambda>arg. length arg > 0) args
      in if parts = [] then ''.'' else pathNormalize (joinWith ''/'' parts))"

text \<open>
  \<open>resolve\<close> with one argument: the argument, then the working directory unless the
  argument is absolute, each followed by a slash; the whole normalised.
\<close>

definition pathResolve :: "string \<Rightarrow> string \<Rightarrow> string" where
  "pathResolve workingDir path =
     (let r1 = (if length path = 0 then [] else path @ ''/'');
          abs1 = (length path \<noteq> 0 \<and> hd path = CHR ''/'');
          r2 = (if abs1 \<or> length workingDir = 0 then r1 else workingDir @ ''/'' @ r1);
          resolvedAbsolute = (abs1 \<or> (length workingDir \<noteq> 0 \<and> hd workingDir = CHR ''/''));
          resolvedPath = normalizeString r2 (\<not> resolvedAbsolute)
      in if resolvedAbsolute then ''/'' @ resolvedPath
         else if length resolvedPath > 0 then resolvedPath else ''.'')"

text \<open>
  A resolved path lies within a resolved root when it is the root or continues it after a
  slash; strictly within when it is not the root itself.
\<close>

definition liesWithin :: "string \<Rightarrow> string \<Rightarrow> bool" where
  "liesWithin rootDir full =
     (full = rootDir \<or> startsWith full (if rootDir = ''/'' then rootDir else rootDir @ ''/''))"

definition liesStrictlyWithin :: "string \<Rightarrow> string \<Rightarrow> bool" where
  "liesStrictlyWithin rootDir full = (liesWithin rootDir full \<and> full \<noteq> rootDir)"

text \<open>
  A segment that the normalisation keeps wherever it stands: neither empty nor \<open>.\<close>.
\<close>

definition keptSegment :: "string \<Rightarrow> bool" where
  "keptSegment seg = (seg \<noteq> [] \<and> seg \<noteq> ''.'')"

text \<open>
  The segments of a path resolved against an absolute working directory: the walk over
  the path starts from nothing when the path is absolute and from the segments of the
  working directory otherwise.
\<close>

definition resolvedSegments :: "string \<Rightarrow> string \<Rightarrow> string list" where
  "resolvedSegments workingDir path =
     foldl (normalizeStep False)
       (if hd path = CHR ''/'' then []
        else foldl (normalizeStep False) [] (splitSlash workingDir))
       (splitSlash path)"

section \<open>The three tools: definitions and executors\<close>

text \<open>
  The host an executor runs on: the environment variable \<open>MCP_SANDBOX_DIR\<close>, the working
  directory of the process, what \<open>readFile\<close> yields at each path (the bytes of the file or
  the exception thrown), the operating-system figures read by the system-info tool, and
  the list of file-system operations performed so far. The file-system module offers the
  executors no other operation than \<open>readFile\<close>.
\<close>

datatype FsOp = FsRead string

record Host =
  envSandboxDir :: "string option"
  workingDirectory :: string
  fileAt :: "string \<Rightarrow> thrown + string"
  fsLog :: "FsOp list"
  osPlatform :: string
  osArch :: string
  osTotalmem :: int
  osFreemem :: int
  osUptime :: int
  processVersion :: string

definition SANDBOX_DIR :: "Host \<Rightarrow> string" where
  "SANDBOX_DIR h =
     (case envSandboxDir h of
        None \<Rightarrow> ''/tmp/mcp-sandbox''
      | Some d \<Rightarrow> if d = [] then ''/tmp/mcp-sandbox'' else d)"

definition readFile :: "string \<Rightarrow> Host \<Rightarrow> (thrown + string) \<times> Host" where
  "readFile p h = (fileAt h p, h\<lparr>fsLog := fsLog h @ [FsRead p]\<rparr>)"

subsection \<open>system-info\<close>

datatype InfoCategory = Platform | Memory | Uptime | NodeVersion

record SystemInfoInput =
  si_include :: "InfoCategory list"

definition parseCategory :: "json \<Rightarrow> InfoCategory option" where
  "parseCategory j =
     (if j = JStr ''platform'' then Some Platform
      else if j = JStr ''memory'' then Some Memory
      else if j = JStr ''uptime'' then Some Uptime
      else if j = JStr ''nodeVersion'' then Some NodeVersion
      else None)"

definition systemInfoInputSchema :: "(string \<times> json) list \<Rightarrow> ZodIssue list + SystemInfoInput" where
  "systemInfoInputSchema kvs =
     (case member kvs ''include'' of
        None \<Rightarrow> Inr \<lparr>si_include = [Platform, NodeVersion]\<rparr>
      | Some (JArr xs) \<Rightarrow>
          (let issues = concat (map (\<lambda>(i, x). if parseCategory x = None
                                                 then [ZodIssue [''include'', showNat i] ''Invalid enum value'']
                                                 else [])
                                    (zip [0..<length xs] xs))
           in if issues \<noteq> [] then Inl issues
              else Inr \<lparr>si_include = List.map_filter parseCategory xs\<rparr>)
      | other \<Rightarrow> Inl (invalidType [''include''] ''array'' other))"

definition systemInfoDefinition :: "SystemInfoInput ToolDefinition" where
  "systemInfoDefinition =
     \<lparr>td_name = ''system-info'',
      td_description = ''Retrieve basic system information such as platform, memory usage, uptime, and Node.js version.'',
      td_intent = ''Provides read-only system diagnostics for context awareness. Useful for agents that need to understand the runtime environment.'',
      td_inputSchema = systemInfoInputSchema,
      td_safety = Safe\<rparr>"

record MemoryInfo =
  mem_total :: int
  mem_free :: int
  mem_used :: int
  mem_usedPercent :: int

record SystemInfoOutput =
  so_platform :: "string option"
  so_arch :: "string option"
  so_memory :: "MemoryInfo option"
  so_uptime :: "int option"
  so_nodeVersion :: "string option"

text \<open>
  \<open>Math.round\<close> rounds halves upwards. A host reporting no memory at all makes the
  source divide by zero; that case is outside the model.
\<close>

definition mathRound :: "rat \<Rightarrow> int" where
  "mathRound x = \<lfloor>x + 1 / 2\<rfloor>"

definition addCategory :: "Host \<Rightarrow> SystemInfoOutput \<Rightarrow> InfoCategory \<Rightarrow> SystemInfoOutput" where
  "addCategory h d category =
     (case category of
        Platform \<Rightarrow> d\<lparr>so_platform := Some (osPlatform h), so_arch := Some (osArch h)\<rparr>
      | Memory \<Rightarrow>
          (let total = osTotalmem h; free = osFreemem h; used = total - free
           in d\<lparr>so_memory := Some \<lparr>mem_total = total, mem_free = free, mem_used = used,
                    mem_usedPercent = mathRound ((of_int used / of_int total) * 100)\<rparr>\<rparr>)
      | Uptime \<Rightarrow> d\<lparr>so_uptime := Some (osUptime h)\<rparr>
      | NodeVersion \<Rightarrow> d\<lparr>so_nodeVersion := Some (processVersion h)\<rparr>)"

definition systemInfoExecutor :: "(SystemInfoInput, SystemInfoOutput, Host) ToolExecutor" where
  "systemInfoExecutor input context h =
     (let d0 = \<lparr>so_platform = None, so_arch = None, so_memory = None, so_uptime = None,
                so_nodeVersion = None\<rparr>;
          d = foldl (addCategory h) d0 (si_include input)
      in (Inr \<lparr>ter_success = True, ter_data = Some d, ter_error = None,
               ter_simulatedAction = None\<rparr>, h))"

subsection \<open>file-read\<close>

datatype Encoding = Utf8 | Base64

record FileReadInput =
  fr_path :: string
  fr_maxBytes :: int
  fr_encoding :: Encoding

text \<open>
  The \<open>path\<close> member of both file schemas: a string of at least one character that does
  not contain two consecutive dots. Zod runs the refinement also when the length check
  has failed.
\<close>

definition pathIssues :: "json option \<Rightarrow> ZodIssue list" where
  "pathIssues v =
     (case v of
        Some (JStr p) \<Rightarrow>
          (if length p < 1 then [ZodIssue [''path''] ''Path cannot be empty''] else [])
          @ (if strIncludes p ''..'' then [ZodIssue [''path''] ''Path traversal not allowed'']
             else [])
      | other \<Rightarrow> invalidType [''path''] ''string'' other)"

definition isInteger :: "rat \<Rightarrow> bool" where
  "isInteger r = (of_int \<lfloor>r\<rfloor> = r)"

definition maxBytesIssues :: "json option \<Rightarrow> ZodIssue list" where
  "maxBytesIssues v =
     (case v of
        None \<Rightarrow> []
      | Some (JNum r) \<Rightarrow>
          (if \<not> isInteger r then [ZodIssue [''maxBytes''] ''Expected integer, received float'']
           else [])
          @ (if r < 1 then [ZodIssue [''maxBytes''] ''Number must be greater than or equal to 1'']
             else [])
          @ (if r > 1000000
             then [ZodIssue [''maxBytes''] ''Number must be less than or equal to 1000000'']
             else [])
      | other \<Rightarrow> invalidType [''maxBytes''] ''number'' other)"

definition encodingIssues :: "json option \<Rightarrow> ZodIssue list" where
  "encodingIssues v =
     (case v of
        None \<Rightarrow> []
      | Some j \<Rightarrow> if j = JStr ''utf-8'' \<or> j = JStr ''base64'' then []
                  else [ZodIssue [''encoding''] ''Invalid enum value''])"

definition fileReadInputSchema :: "(string \<times> json) list \<Rightarrow> ZodIssue list + FileReadInput" where
  "fileReadInputSchema kvs =
     (let issues = pathIssues (member kvs ''path'') @ maxBytesIssues (member kvs ''maxBytes'')
                     @ encodingIssues (member kvs ''encoding'')
      in if issues \<noteq> [] then Inl issues
         else Inr \<lparr>fr_path = (case member kvs ''path'' of Some (JStr p) \<Rightarrow> p | other \<Rightarrow> []),
                   fr_maxBytes = (case member kvs ''maxBytes'' of Some (JNum r) \<Rightarrow> \<lfloor>r\<rfloor>
                                  | other \<Rightarrow> 10000),
                   fr_encoding = (if member kvs ''encoding'' = Some (JStr ''base64'') then Base64
                                  else Utf8)\<rparr>)"

definition fileReadDefinition :: "FileReadInput ToolDefinition" where
  "fileReadDefinition =
     \<lparr>td_name = ''file-read'',
      td_description = ''Read the contents of a file from a sandboxed directory.'',
      td_intent = ''Enables agents to access configuration files, logs, or data files within a restricted area. Path traversal is blocked to prevent unauthorized access.'',
      td_inputSchema = fileReadInputSchema,
      td_safety = Safe\<rparr>"

text \<open>
  The text of a buffer in an encoding is kept as the buffer tagged with the encoding.
\<close>

datatype Content = Utf8Text string | Base64Text string

record FileReadOutput =
  fo_path :: string
  fo_content :: Content
  fo_size :: nat
  fo_encoding :: Encoding

definition failure :: "string \<Rightarrow> 'o ToolExecutionResult" where
  "failure msg = \<lparr>ter_success = False, ter_data = None, ter_error = Some msg,
                  ter_simulatedAction = None\<rparr>"

definition fileReadExecutor :: "(FileReadInput, FileReadOutput, Host) ToolExecutor" where
  "fileReadExecutor input context h =
     (let normalizedPath = pathNormalize (fr_path input);
          fullPath = pathResolve (workingDirectory h) (pathJoin [SANDBOX_DIR h, normalizedPath])
      in if \<not> startsWith fullPath (pathResolve (workingDirectory h) (SANDBOX_DIR h))
         then (Inr (failure ''Path escapes sandbox directory''), h)
         else
           (let (r, h') = readFile fullPath h
            in case r of
                 Inl err \<Rightarrow> (Inr (failure (''Failed to read file: '' @ errorMessage err)), h')
               | Inr buffer \<Rightarrow>
                   if int (length buffer) > fr_maxBytes input
                   then (Inr (failure (''File size ('' @ showNat (length buffer)
                                        @ '' bytes) exceeds limit (''
                                        @ showNat (nat (fr_maxBytes input)) @ '' bytes)'')), h')
                   else
                     (let content = (if fr_encoding input = Base64 then Base64Text buffer
                                     else Utf8Text buffer)
                      in (Inr \<lparr>ter_success = True,
                               ter_data = Some \<lparr>fo_path = normalizedPath, fo_content = content,
                                                 fo_size = length buffer,
                                                 fo_encoding = fr_encoding input\<rparr>,
                               ter_error = None, ter_simulatedAction = None\<rparr>, h'))))"

subsection \<open>file-write\<close>

datatype WriteMode = Overwrite | Append

record FileWriteInput =
  fw_path :: string
  fw_content :: string
  fw_mode :: WriteMode
  fw_createDirs :: bool

definition contentIssues :: "json option \<Rightarrow> ZodIssue list" where
  "contentIssues v =
     (case v of
        Some (JStr s) \<Rightarrow>
          (if int (length s) > 100000 then [ZodIssue [''content''] ''Content too large (max 100KB)'']
           else [])
      | other \<Rightarrow> invalidType [''content''] ''string'' other)"

definition modeIssues :: "json option \<Rightarrow> ZodIssue list" where
  "modeIssues v =
     (case v of
        None \<Rightarrow> []
      | Some j \<Rightarrow> if j = JStr ''overwrite'' \<or> j = JStr ''append'' then []
                  else [ZodIssue [''mode''] ''Invalid enum value''])"

definition createDirsIssues :: "json option \<Rightarrow> ZodIssue list" where
  "createDirsIssues v =
     (case v of
        None \<Rightarrow> []
      | Some (JBool b) \<Rightarrow> []
      | other \<Rightarrow> invalidType [''createDirs''] ''boolean'' other)"

definition fileWriteInputSchema :: "(string \<times> json) list \<Rightarrow> ZodIssue list + FileWriteInput" where
  "fileWriteInputSchema kvs =
     (let issues = pathIssues (member kvs ''path'') @ contentIssues (member kvs ''content'')
                     @ modeIssues (member kvs ''mode'')
                     @ createDirsIssues (member kvs ''createDirs'')
      in if issues \<noteq> [] then Inl issues
         else Inr \<lparr>fw_path = (case member kvs ''path'' of Some (JStr p) \<Rightarrow> p | other \<Rightarrow> []),
                   fw_content = (case member kvs ''content'' of Some (JStr s) \<Rightarrow> s | other \<Rightarrow> []),
                   fw_mode = (if member kvs ''mode'' = Some (JStr ''append'') then Append
                              else Overwrite),
                   fw_createDirs = (member kvs ''createDirs'' = Some (JBool True))\<rparr>)"

definition fileWriteDefinition :: "FileWriteInput ToolDefinition" where
  "fileWriteDefinition =
     \<lparr>td_name = ''file-write'',
      td_description = ''Write content to a file in a sandboxed directory. DANGEROUS: Runs in dry-run mode only.'',
      td_intent = ''Allows agents to persist data, create configurations, or generate output files. Marked as dangerous due to filesystem mutation - all executions simulate the write without actually performing it.'',
      td_inputSchema = fileWriteInputSchema,
      td_safety = Dangerous\<rparr>"

record FileWriteOutput =
  wo_path :: string
  wo_bytesWritten :: nat
  wo_mode :: WriteMode

text \<open>
  \<open>Buffer.byteLength(s, 'utf-8')\<close>: one byte for a code unit below 128, two for the
  others of the modelled range.
\<close>

definition byteLength :: "string \<Rightarrow> nat" where
  "byteLength s = sum_list (map (\<lambda>c. if (of_char c :: nat) < 128 then 1 else 2) s)"

definition modeName :: "WriteMode \<Rightarrow> string" where
  "modeName m = (case m of Overwrite \<Rightarrow> ''overwrite'' | Append \<Rightarrow> ''append'')"

definition fileWriteExecutor :: "(FileWriteInput, FileWriteOutput, Host) ToolExecutor" where
  "fileWriteExecutor input context h =
     (let normalizedPath = pathNormalize (fw_path input);
          fullPath = pathResolve (workingDirectory h) (pathJoin [SANDBOX_DIR h, normalizedPath])
      in if \<not> startsWith fullPath (pathResolve (workingDirectory h) (SANDBOX_DIR h))
         then (Inr (failure ''Path escapes sandbox directory''), h)
         else if dryRun context
         then (Inr \<lparr>ter_success = True,
                    ter_data = Some \<lparr>wo_path = normalizedPath,
                                      wo_bytesWritten = byteLength (fw_content input),
                                      wo_mode = fw_mode input\<rparr>,
                    ter_error = None,
                    ter_simulatedAction =
                      Some (''Would '' @ modeName (fw_mode input) @ '' ''
                            @ showNat (byteLength (fw_content input)) @ '' bytes to '' @ fullPath
                            @ (if fw_createDirs input then '' (creating parent directories)''
                               else ''''))\<rparr>, h)
         else (Inr (failure
                 ''Write operations are disabled. This tool runs in dry-run mode only.''), h))"

section \<open>Tool registry\<close>

text \<open>
  The registry is a \<open>Map\<close> from names to registered tools; it is kept as the list of its
  entries in insertion order. \<open>register\<close> throws on a name already present.
\<close>

type_synonym ('i, 'o, 'h) ToolRegistry = "(string \<times> ('i, 'o, 'h) RegisteredTool) list"

definition registryHas :: "('i, 'o, 'h) ToolRegistry \<Rightarrow> string \<Rightarrow> bool" where
  "registryHas tools name = (map_of tools name \<noteq> None)"

definition registryGet :: "('i, 'o, 'h) ToolRegistry \<Rightarrow> string \<Rightarrow> ('i, 'o, 'h) RegisteredTool option" where
  "registryGet tools name = map_of tools name"

definition register ::
  "('i, 'o, 'h) ToolRegistry \<Rightarrow> 'i ToolDefinition \<Rightarrow> ('i, 'o, 'h) ToolExecutor
     \<Rightarrow> thrown + ('i, 'o, 'h) ToolRegistry" where
  "register tools d ex =
     (if registryHas tools (td_name d) then Inl (Error (''Tool already registered: '' @ td_name d))
      else Inr (tools @ [(td_name d, \<lparr>definition_of = d, executor = ex\<rparr>)]))"

definition listDefinitions :: "('i, 'o, 'h) ToolRegistry \<Rightarrow> 'i ToolDefinition list" where
  "listDefinitions tools = map (\<lambda>(name, t). definition_of t) tools"

text \<open>
  The registry stores every executor at the one type \<open>ToolExecutor\<close>. In the model the
  validated inputs and the result data of the three tools are the summands of two sum
  types. An executor handed the input of another tool (which the registry never does,
  since it pairs each schema with its own executor) is taken to throw.
\<close>

datatype ToolInput =
    SystemInfoIn SystemInfoInput
  | FileReadIn FileReadInput
  | FileWriteIn FileWriteInput

datatype ToolOutput =
    SystemInfoOut SystemInfoOutput
  | FileReadOut FileReadOutput
  | FileWriteOut FileWriteOutput

definition mapData :: "('a \<Rightarrow> 'b) \<Rightarrow> 'a ToolExecutionResult \<Rightarrow> 'b ToolExecutionResult" where
  "mapData f r = \<lparr>ter_success = ter_success r, ter_data = map_option f (ter_data r),
                  ter_error = ter_error r, ter_simulatedAction = ter_simulatedAction r\<rparr>"

definition castDefinition :: "('a \<Rightarrow> ToolInput) \<Rightarrow> 'a ToolDefinition \<Rightarrow> ToolInput ToolDefinition" where
  "castDefinition wrap d =
     \<lparr>td_name = td_name d, td_description = td_description d, td_intent = td_intent d,
      td_inputSchema = (\<lambda>kvs. map_sum id wrap (td_inputSchema d kvs)),
      td_safety = td_safety d\<rparr>"

definition castExecutor ::
  "(ToolInput \<Rightarrow> 'a option) \<Rightarrow> ('b \<Rightarrow> ToolOutput) \<Rightarrow> ('a, 'b, Host) ToolExecutor
     \<Rightarrow> (ToolInput, ToolOutput, Host) ToolExecutor" where
  "castExecutor unwrap wrap ex input context h =
     (case unwrap input of
        None \<Rightarrow> (Inl (Error ''TypeError''), h)
      | Some i \<Rightarrow> (case ex i context h of (r, h') \<Rightarrow> (map_sum id (mapData wrap) r, h')))"

definition systemInfoTool :: "(ToolInput, ToolOutput, Host) RegisteredTool" where
  "systemInfoTool =
     \<lparr>definition_of = castDefinition SystemInfoIn systemInfoDefinition,
      executor = castExecutor (\<lambda>i. case i of SystemInfoIn x \<Rightarrow> Some x | _ \<Rightarrow> None)
                   SystemInfoOut systemInfoExecutor\<rparr>"

definition fileReadTool :: "(ToolInput, ToolOutput, Host) RegisteredTool" where
  "fileReadTool =
     \<lparr>definition_of = castDefinition FileReadIn fileReadDefinition,
      executor = castExecutor (\<lambda>i. case i of FileReadIn x \<Rightarrow> Some x | _ \<Rightarrow> None)
                   FileReadOut fileReadExecutor\<rparr>"

definition fileWriteTool :: "(ToolInput, ToolOutput, Host) RegisteredTool" where
  "fileWriteTool =
     \<lparr>definition_of = castDefinition FileWriteIn fileWriteDefinition,
      executor = castExecutor (\<lambda>i. case i of FileWriteIn x \<Rightarrow> Some x | _ \<Rightarrow> None)
                   FileWriteOut fileWriteExecutor\<rparr>"

text \<open>
  The registry after the three \<open>register\<close> calls made when the module is loaded.
\<close>

definition toolRegistry :: "(ToolInput, ToolOutput, Host) ToolRegistry" where
  "toolRegistry =
     [(''system-info'', systemInfoTool), (''file-read'', fileReadTool),
      (''file-write'', fileWriteTool)]"

section \<open>Execution gateway: the handler of POST /mcp/call\<close>

text \<open>
  What a call takes from the transport and the clock: the request id, \<open>Date.now()\<close> at
  the start, the \<open>new Date()\<close> of the execution context, the \<open>new Date()\<close> of the audit
  entry, and \<open>Date.now()\<close> after the executor has finished. Timestamps are kept as
  numbers; their ISO rendering is not modelled.
\<close>

record CallEnv =
  env_requestId :: string
  env_startTime :: int
  env_contextTime :: int
  env_auditTime :: int
  env_endTime :: int

datatype 'o Payload =
    InvalidRequest "ZodIssue list"
  | NotFound string
  | InvalidToolInputs string "ZodIssue list"
  | Response "'o ToolCallResponse"

record 'o Reply =
  status :: nat
  payload :: "'o Payload"

text \<open>
  The state of the server is the audit sink, to which \<open>logToolCall\<close> appends, and the
  host of the executors.
\<close>

record ('i, 'h) ServerState =
  auditSink :: "'i AuditLogEntry list"
  host :: 'h

definition logToolCall :: "'i AuditLogEntry \<Rightarrow> ('i, 'h) ServerState \<Rightarrow> ('i, 'h) ServerState" where
  "logToolCall entry st = st\<lparr>auditSink := auditSink st @ [entry]\<rparr>"

record 'i AuditBase =
  base_timestamp :: int
  base_requestId :: string
  base_toolName :: string
  base_intent :: string
  base_inputs :: 'i
  base_dryRun :: bool

definition createAuditEntry ::
  "int \<Rightarrow> string \<Rightarrow> string \<Rightarrow> string \<Rightarrow> 'i \<Rightarrow> bool \<Rightarrow> 'i AuditBase" where
  "createAuditEntry now requestId toolName intent inputs dry =
     \<lparr>base_timestamp = now, base_requestId = requestId, base_toolName = toolName,
      base_intent = intent, base_inputs = inputs, base_dryRun = dry\<rparr>"

definition auditEntry ::
  "'i AuditBase \<Rightarrow> AuditResult \<Rightarrow> int \<Rightarrow> string option \<Rightarrow> 'i AuditLogEntry" where
  "auditEntry auditBase res duration err =
     \<lparr>audit_timestamp = base_timestamp auditBase, audit_requestId = base_requestId auditBase,
      audit_toolName = base_toolName auditBase, audit_intent = base_intent auditBase,
      audit_inputs = base_inputs auditBase, audit_result = res,
      audit_dryRun = base_dryRun auditBase, audit_error = err, audit_durationMs = duration\<rparr>"

text \<open>
  Lines 113 to 121 of the handler: the execution context of a matched tool.
\<close>

definition executionContext :: "('i, 'o, 'h) RegisteredTool \<Rightarrow> CallEnv \<Rightarrow> ExecutionContext" where
  "executionContext tool env =
     (let dry = (td_safety (definition_of tool) = Dangerous)
      in \<lparr>dryRun = dry, ctx_timestamp = env_contextTime env, ctx_requestId = env_requestId env\<rparr>)"

text \<open>
  Lines 123 to 189: the audit entry and the reply built from what the executor did
  (\<open>Inr\<close> a result, \<open>Inl\<close> an exception caught by the handler). \<open>intent || ...\<close> and
  \<open>if (result.simulatedAction)\<close> treat the empty string as absent.
\<close>

definition completeCall ::
  "('i, 'o, 'h) RegisteredTool \<Rightarrow> CallEnv \<Rightarrow> string \<Rightarrow> string option \<Rightarrow> 'i
     \<Rightarrow> ExecutionContext \<Rightarrow> (thrown + 'o ToolExecutionResult) \<times> 'h
     \<Rightarrow> ('i, 'h) ServerState \<Rightarrow> 'o Reply \<times> ('i, 'h) ServerState" where
  "completeCall tool env toolName intent validatedInputs context outcome_host st =
     (let dry = dryRun context;
          auditBase = createAuditEntry (env_auditTime env) (env_requestId env) toolName
                        (case intent of
                           None \<Rightarrow> td_intent (definition_of tool)
                         | Some s \<Rightarrow> if s = [] then td_intent (definition_of tool) else s)
                        validatedInputs dry;
          st' = st\<lparr>host := snd outcome_host\<rparr>;
          durationMs = env_endTime env - env_startTime env
      in case fst outcome_host of
           Inr result \<Rightarrow>
             (let entry = auditEntry auditBase
                            (if ter_success result then AuditSuccess else AuditError)
                            durationMs (ter_error result);
                  st'' = logToolCall entry st';
                  response = \<lparr>tcr_tool = toolName, tcr_success = ter_success result,
                              tcr_result = ter_data result, tcr_error = ter_error result,
                              tcr_dryRun = dry, tcr_timestamp = ctx_timestamp context,
                              tcr_requestId = env_requestId env,
                              tcr_simulatedAction =
                                (case ter_simulatedAction result of
                                   None \<Rightarrow> None
                                 | Some a \<Rightarrow> if a = [] then None else Some a)\<rparr>
              in (\<lparr>status = (if \<not> ter_success result then 422 else 200),
                   payload = Response response\<rparr>, st''))
         | Inl err \<Rightarrow>
             (let entry = auditEntry auditBase AuditError durationMs (Some (errorMessage err));
                  st'' = logToolCall entry st'
              in (\<lparr>status = 500,
                   payload = Response
                     \<lparr>tcr_tool = toolName, tcr_success = False, tcr_result = None,
                      tcr_error = Some (errorMessage err), tcr_dryRun = dry,
                      tcr_timestamp = ctx_timestamp context,
                      tcr_requestId = env_requestId env, tcr_simulatedAction = None\<rparr>\<rparr>, st'')))"

text \<open>
  The whole handler. A schema parse only ever throws a \<open>ZodError\<close>, so the two
  \<open>throw err\<close> lines that pass on other exceptions are never reached.
\<close>

definition handleCall ::
  "('i, 'o, 'h) ToolRegistry \<Rightarrow> CallEnv \<Rightarrow> json \<Rightarrow> ('i, 'h) ServerState
     \<Rightarrow> 'o Reply \<times> ('i, 'h) ServerState" where
  "handleCall registry env body st =
     (case ToolCallRequestSchema body of
        Inl issues \<Rightarrow> (\<lparr>status = 400, payload = InvalidRequest issues\<rparr>, st)
      | Inr parsedRequest \<Rightarrow>
          (let toolName = req_tool parsedRequest;
               inputs = req_inputs parsedRequest;
               intent = req_intent parsedRequest
           in case registryGet registry toolName of
                None \<Rightarrow> (\<lparr>status = 404, payload = NotFound (''Tool not found: '' @ toolName)\<rparr>, st)
              | Some tool \<Rightarrow>
                  (case td_inputSchema (definition_of tool) inputs of
                     Inl issues \<Rightarrow>
                       (\<lparr>status = 400, payload = InvalidToolInputs toolName issues\<rparr>, st)
                   | Inr validatedInputs \<Rightarrow>
                       (let context = executionContext tool env
                        in completeCall tool env toolName intent validatedInputs context
                             (executor tool validatedInputs context (host st)) st))))"

section \<open>Permission-constrained agents\<close>

text \<open>
  The gateway client. \<open>MCPClient.callTool\<close> builds the request from its three arguments,
  posts it and returns the decoded answer; the post itself (\<open>fetch\<close>, which may throw) is
  taken from outside. The state on the agent side is the list of requests sent to the
  gateway so far and the outside world.
\<close>

record MCPToolCallRequest =
  mq_tool :: string
  mq_inputs :: "(string \<times> json) list"
  mq_intent :: "string option"

record 'r MCPToolCallResponse =
  mr_tool :: string
  mr_success :: bool
  mr_result :: "'r option"
  mr_error :: "string option"
  mr_dryRun :: bool
  mr_timestamp :: string
  mr_requestId :: string
  mr_simulatedAction :: "string option"

type_synonym ('r, 'g) Post =
  "MCPToolCallRequest \<Rightarrow> 'g \<Rightarrow> (thrown + 'r MCPToolCallResponse) \<times> 'g"

type_synonym 'g ClientState = "MCPToolCallRequest list \<times> 'g"

definition callTool ::
  "('r, 'g) Post \<Rightarrow> string \<Rightarrow> (string \<times> json) list \<Rightarrow> string option \<Rightarrow> 'g ClientState
     \<Rightarrow> (thrown + 'r MCPToolCallResponse) \<times> 'g ClientState" where
  "callTool post toolName inputs intent s =
     (let request = \<lparr>mq_tool = toolName, mq_inputs = inputs, mq_intent = intent\<rparr>;
          (answer, g') = post request (snd s)
      in (answer, (fst s @ [request], g')))"

text \<open>
  A LangChain tool as far as the source determines it: its name, its description and the
  function run when the language model picks it. The argument schema handed to LangChain
  is left out.
\<close>

record 'g DynamicStructuredTool =
  dst_name :: string
  dst_description :: string
  dst_func :: "(string \<times> json) list \<Rightarrow> 'g ClientState \<Rightarrow> (thrown + string) \<times> 'g ClientState"

definition toolDescriptions :: "string \<Rightarrow> string option" where
  "toolDescriptions toolName =
     (if toolName = ''system-info''
      then Some ''Get system information like platform, memory usage, uptime, and CPU details''
      else if toolName = ''file-read''
      then Some ''Read the contents of a file from the sandboxed directory''
      else if toolName = ''file-write''
      then Some ''Write content to a file in the sandboxed directory (runs in dry-run mode)''
      else None)"

definition dashesToUnderscores :: "string \<Rightarrow> string" where
  "dashesToUnderscores s = map (\<lambda>c. if c = CHR ''-'' then CHR ''_'' else c) s"

text \<open>
  \<open>createMCPToolWrapper\<close>. \<open>stringify\<close> stands for \<open>JSON.stringify(..., null, 2)\<close>. A
  missing error text is rendered the way a template literal renders \<open>undefined\<close>.
\<close>

definition createMCPToolWrapper ::
  "('r, 'g) Post \<Rightarrow> ('r option \<Rightarrow> string) \<Rightarrow> string \<Rightarrow> string \<Rightarrow> 'g DynamicStructuredTool" where
  "createMCPToolWrapper post stringify toolName agentName =
     \<lparr>dst_name = dashesToUnderscores toolName,
      dst_description = (case toolDescriptions toolName of
                           Some d \<Rightarrow> d
                         | None \<Rightarrow> ''Call the '' @ toolName @ '' MCP tool''),
      dst_func = (\<lambda>inputs s.
        (let intent = ''Agent '' @ [CHR 0x22] @ agentName @ [CHR 0x22] @ '' calling '' @ toolName;
             (answer, s') = callTool post toolName inputs (Some intent) s
         in case answer of
              Inl err \<Rightarrow> (Inl err, s')
            | Inr response \<Rightarrow>
                if \<not> mr_success response
                then (Inr (''Error: '' @ (case mr_error response of Some e \<Rightarrow> e
                                          | None \<Rightarrow> ''undefined'')), s')
                else
                  (let result = stringify (mr_result response);
                       result' =
                         (case mr_simulatedAction response of
                            Some a \<Rightarrow>
                              if mr_dryRun response \<and> a \<noteq> []
                              then result @ nl @ nl @ ''[DRY-RUN] Simulated action: '' @ a
                              else result
                          | None \<Rightarrow> result)
                   in (Inr result', s'))))\<rparr>"

definition createMCPToolWrappers ::
  "('r, 'g) Post \<Rightarrow> ('r option \<Rightarrow> string) \<Rightarrow> string list \<Rightarrow> string
     \<Rightarrow> 'g DynamicStructuredTool list" where
  "createMCPToolWrappers post stringify allowedTools agentName =
     map (\<lambda>toolName. createMCPToolWrapper post stringify toolName agentName) allowedTools"

record AgentConfig =
  cfg_name :: string
  cfg_allowedTools :: "string list"
  cfg_systemPrompt :: string

text \<open>
  A constrained agent: its name, its set of allowed tool names, and the tools its
  language-model executor was built with. The executor itself is outside the model; the
  tools are all it can run.
\<close>

record 'g ConstrainedAgent =
  ca_name :: string
  ca_allowedTools :: "string set"
  ca_tools :: "'g DynamicStructuredTool list"

definition createAgent ::
  "('r, 'g) Post \<Rightarrow> ('r option \<Rightarrow> string) \<Rightarrow> AgentConfig \<Rightarrow> 'g ConstrainedAgent" where
  "createAgent post stringify config =
     (let tools = createMCPToolWrappers post stringify (cfg_allowedTools config) (cfg_name config)
      in \<lparr>ca_name = cfg_name config, ca_allowedTools = set (cfg_allowedTools config),
          ca_tools = tools\<rparr>)"

definition canUseTool :: "'g ConstrainedAgent \<Rightarrow> string \<Rightarrow> bool" where
  "canUseTool agent toolName = (toolName \<in> ca_allowedTools agent)"


definition fileAnalystConfig :: AgentConfig where
  "fileAnalystConfig =
     \<lparr>cfg_name = ''FileAnalyst'', cfg_allowedTools = [''file-read''],
      cfg_systemPrompt = ''You are the File Analyst Agent.''\<rparr>"

section \<open>Concrete collaborators for the examples\<close>

text \<open>
  Two scripted outside worlds for the orchestrator, with a counter as the clock: in the
  first every agent answers, in the second the file analyst throws.
\<close>

definition scriptedAnswer :: "AgentKind \<Rightarrow> string" where
  "scriptedAnswer k =
     (case k of SystemInspector \<Rightarrow> ''memory is fine''
      | FileAnalyst \<Rightarrow> ''the file has three lines''
      | ChangeProposer \<Rightarrow> ''proposal: write hello.txt'')"

definition answeringAgents :: "(unit, nat) Collaborators" where
  "answeringAgents =
     \<lparr>healthCheck = (\<lambda>w. (True, w + 1)),
      agentRun = (\<lambda>k t w. (Inr \<lparr>arr_output = scriptedAnswer k, arr_toolCalls = []\<rparr>, w + 5)),
      dateNow = (\<lambda>w. int w)\<rparr>"

definition failingAnalyst :: "(unit, nat) Collaborators" where
  "failingAnalyst =
     \<lparr>healthCheck = (\<lambda>w. (True, w + 1)),
      agentRun = (\<lambda>k t w.
        (if k = FileAnalyst then Inl (Error ''model unavailable'')
         else Inr \<lparr>arr_output = scriptedAnswer k, arr_toolCalls = []\<rparr>, w + 5)),
      dateNow = (\<lambda>w. int w)\<rparr>"

definition allThreeTask :: OrchestratorInput where
  "allThreeTask =
     \<lparr>oi_task = ''cpu read write'',
      oi_taskType = None, oi_context = None\<rparr>"

text \<open>
  A host for the gateway examples: the default sandbox directory, a working directory,
  one file in the sandbox directory and one beside it in a directory whose name continues
  the sandbox directory's.
\<close>

definition demoHost :: Host where
  "demoHost =
     \<lparr>envSandboxDir = None, workingDirectory = ''/srv/app'',
      fileAt = (\<lambda>p. if p = ''/tmp/mcp-sandbox/a.txt'' then Inr ''hello''
                    else if p = ''/tmp/mcp-sandbox-evil/x'' then Inr ''secret''
                    else if p = ''/tmp/mcp-sandbox''
                    then Inl (Error ''EISDIR: illegal operation on a directory, read'')
                    else Inl (Error ''ENOENT: no such file or directory'')),
      fsLog = [],
      osPlatform = ''linux'', osArch = ''x64'', osTotalmem = 1000, osFreemem = 250,
      osUptime = 42, processVersion = ''v20.0.0''\<rparr>"

definition demoEnv :: CallEnv where
  "demoEnv = \<lparr>env_requestId = ''req-1'', env_startTime = 100, env_contextTime = 101,
              env_auditTime = 102, env_endTime = 105\<rparr>"

definition demoState :: "(ToolInput, Host) ServerState" where
  "demoState = \<lparr>auditSink = [], host = demoHost\<rparr>"

definition callBody :: "string \<Rightarrow> (string \<times> json) list \<Rightarrow> json" where
  "callBody name inputs = JObj [(''tool'', JStr name), (''inputs'', JObj inputs)]"

text \<open>
  A request for the dangerous tool that asks, in every place it can, not to be a dry run.
\<close>

definition insistentWrite :: json where
  "insistentWrite =
     JObj [(''tool'', JStr ''file-write''),
           (''inputs'', JObj [(''path'', JStr ''o.txt''), (''content'', JStr ''Hi''),
                              (''dryRun'', JBool False)]),
           (''intent'', JStr ''really write''),
           (''dryRun'', JBool False)]"

definition insistentWriteInputs :: "(string \<times> json) list" where
  "insistentWriteInputs =
     [(''path'', JStr ''o.txt''), (''content'', JStr ''Hi''), (''dryRun'', JBool False)]"

definition dryContext :: ExecutionContext where
  "dryContext = \<lparr>dryRun = True, ctx_timestamp = 101, ctx_requestId = ''req-1''\<rparr>"

definition wetContext :: ExecutionContext where
  "wetContext = \<lparr>dryRun = False, ctx_timestamp = 101, ctx_requestId = ''req-1''\<rparr>"

definition smallWrite :: FileWriteInput where
  "smallWrite = \<lparr>fw_path = ''o.txt'', fw_content = ''Hi'', fw_mode = Overwrite,
                 fw_createDirs = False\<rparr>"



definition passwdCall :: json where
  "passwdCall = callBody ''file-read'' [(''path'', JStr ''../etc/passwd'')]"

definition passwdRequest :: ToolCallRequest where
  "passwdRequest = \<lparr>req_tool = ''file-read'', req_inputs = [(''path'', JStr ''../etc/passwd'')],
                    req_intent = None\<rparr>"

definition rootCall :: json where
  "rootCall = callBody ''file-read'' [(''path'', JStr ''.'')]"

definition sandboxRoot :: "Host \<Rightarrow> string" where
  "sandboxRoot h = pathResolve (workingDirectory h) (SANDBOX_DIR h)"

definition fullPathOf :: "Host \<Rightarrow> string \<Rightarrow> string" where
  "fullPathOf h p = pathResolve (workingDirectory h) (pathJoin [SANDBOX_DIR h, pathNormalize p])"

definition siblingRead :: FileReadInput where
  "siblingRead = \<lparr>fr_path = ''../mcp-sandbox-evil/x'', fr_maxBytes = 100, fr_encoding = Utf8\<rparr>"

text \<open>
  A call of a registered tool with valid inputs whose optional \<open>intent\<close> is a number.
\<close>

definition numericIntentCall :: json where
  "numericIntentCall =
     JObj [(''tool'', JStr ''file-read''), (''inputs'', JObj [(''path'', JStr ''a.txt'')]),
           (''intent'', JNum 5)]"

section \<open>Facts about strings\<close>

lemma strIncludes_iff: "strIncludes h n \<longleftrightarrow> (\<exists>p s. h = p @ n @ s)"
proof
  assume "strIncludes h n"
  then have "\<exists>i\<in>set [0..<Suc (length h)]. take (length n) (drop i h) = n"
    unfolding strIncludes_def list_ex_iff .
  then obtain i where i: "take (length n) (drop i h) = n"
    by blast
  have "h = take i h @ drop i h"
    by simp
  also have "drop i h = take (length n) (drop i h) @ drop (length n) (drop i h)"
    by (simp only: append_take_drop_id)
  finally have "h = take i h @ take (length n) (drop i h) @ drop (length n) (drop i h)" .
  with i show "\<exists>p s. h = p @ n @ s" by metis
next
  assume "\<exists>p s. h = p @ n @ s"
  then obtain p s where h: "h = p @ n @ s" by blast
  have "length p \<le> length h" "take (length n) (drop (length p) h) = n"
    by (simp_all add: h)
  then show "strIncludes h n"
    unfolding strIncludes_def list_ex_iff
    by (intro bexI[of _ "length p"]) (simp_all del: upt_Suc)
qed

section \<open>Properties of the task router\<close>

text \<open>
  Claim C7. \<open>classifyTask\<close> is a function of the task text alone (the regular
  expressions carry no \<open>g\<close> flag, so \<open>test\<close> keeps no position between calls); it
  answers one of the four labels on every text; it answers \<open>composite\<close> exactly when
  more than one of the three keyword categories is found in the lowercased text, the
  one category found when exactly one is, and the system diagnostic label when none is.
\<close>

theorem classifyTask_rule:
  "(classifyTask t = Composite \<longleftrightarrow> 1 < matchedCategories t)
   \<and> (matchedCategories t = 1 \<and> systemRegexTest (toLowerCase t)
        \<longrightarrow> classifyTask t = SystemDiagnostic)
   \<and> (matchedCategories t = 1 \<and> fileRegexTest (toLowerCase t)
        \<longrightarrow> classifyTask t = FileAnalysis)
   \<and> (matchedCategories t = 1 \<and> changeRegexTest (toLowerCase t)
        \<longrightarrow> classifyTask t = ChangeProposal)
   \<and> (matchedCategories t = 0 \<longrightarrow> classifyTask t = SystemDiagnostic)
   \<and> classifyTask t \<in> {SystemDiagnostic, FileAnalysis, ChangeProposal, Composite}"
  by (cases "classifyTask t")
     (auto simp: classifyTask_def matchedCategories_def Let_def split: if_splits)

theorem classifyTask_rule_witness:
  "matchedCategories ''READ it'' = 1 \<and> fileRegexTest (toLowerCase ''READ it'')
   \<and> classifyTask ''READ it'' = FileAnalysis
   \<and> matchedCategories ''hi'' = 0 \<and> classifyTask ''hi'' = SystemDiagnostic
   \<and> 1 < matchedCategories ''cpu, write'' \<and> classifyTask ''cpu, write'' = Composite"
proof -
  have a: "matchedCategories ''READ it'' = 1 \<and> fileRegexTest (toLowerCase ''READ it'')"
    by code_simp
  have b: "matchedCategories ''hi'' = 0"
    by code_simp
  have c: "1 < matchedCategories ''cpu, write''"
    by code_simp
  show ?thesis
    using a b c classifyTask_rule [of "''READ it''"] classifyTask_rule [of "''hi''"]
      classifyTask_rule [of "''cpu, write''"]
    by blast
qed

section \<open>Properties of composite runs\<close>

lemma runAgentAs_eq:
  "runAgentAs deps k name t (tr, w) =
     (case agentRun deps k t w of
        (Inl e, w') \<Rightarrow> (Inl e, (tr @ [\<lparr>invoked = k, received = t, outcome = Inl e\<rparr>], w'))
      | (Inr res, w') \<Rightarrow>
          (Inr \<lparr>aer_agentName = name, aer_output = arr_output res,
                aer_toolCalls = arr_toolCalls res,
                aer_durationMs = dateNow deps w' - dateNow deps w\<rparr>,
           (tr @ [\<lparr>invoked = k, received = t, outcome = Inr res\<rparr>], w')))"
  by (simp add: runAgentAs_def invokeAgent_def Let_def split: prod.splits sum.splits)

text \<open>
  Whatever the keywords, a composite workflow only appends invocations, at most one of
  them threw, and that one is the last and is the exception the workflow ends with.
\<close>

lemma composite_shape:
  assumes "runCompositeWorkflow deps input (tr0, w) = (r, (tr, w'))"
  shows "\<exists>new. tr = tr0 @ new
           \<and> (\<forall>i < length new. isl (outcome (new ! i)) \<longrightarrow>
                  Suc i = length new \<and> r = Inl (projl (outcome (new ! i))))"
  using assms
  unfolding runCompositeWorkflow_def runSystemDiagnostic_def runFileAnalysis_def
    runChangeProposal_def Let_def
  by (auto split: prod.splits sum.splits if_splits simp: runAgentAs_eq nth_append less_Suc_eq)

text \<open>
  Claim C8. When the task text carries all three keyword categories, the composite
  workflow invokes the system inspector, then the file analyst, then the change proposer
  (a prefix of that order when a step throws, all three when none does), and the task
  text handed to each step contains the output of every step that ran before it.
\<close>

theorem composite_order_and_context:
  assumes "systemRegexTest (toLowerCase (oi_task input))"
      and "fileRegexTest (toLowerCase (oi_task input))"
      and "changeRegexTest (toLowerCase (oi_task input))"
      and "runCompositeWorkflow deps input ([], w) = (r, (tr, w'))"
  shows "map invoked tr = take (length tr) [SystemInspector, FileAnalyst, ChangeProposer]
         \<and> tr \<noteq> []
         \<and> ((\<exists>rs. r = Inr rs) \<longrightarrow> length tr = 3)
         \<and> (\<forall>j < length tr. \<forall>i < j. \<exists>res. outcome (tr ! i) = Inr res
                \<and> strIncludes (received (tr ! j)) (arr_output res))"
proof -
  define c0 where "c0 = (case oi_context input of Some c \<Rightarrow> c | None \<Rightarrow> [])"
  define t1 where "t1 = withContext (oi_task input) c0"
  obtain o1 w1 where r1: "agentRun deps SystemInspector t1 w = (o1, w1)"
    by (cases "agentRun deps SystemInspector t1 w")
  show ?thesis
  proof (cases o1)
    case (Inl e)
    with assms r1 have "tr = [\<lparr>invoked = SystemInspector, received = t1, outcome = Inl e\<rparr>]"
      and "r = Inl e"
      by (auto simp: runCompositeWorkflow_def runSystemDiagnostic_def runAgentAs_eq Let_def
          c0_def t1_def)
    then show ?thesis by simp
  next
    case o1: (Inr res1)
    define c1 where "c1 = c0 @ nl @ nl @ ''System Info: '' @ arr_output res1"
    define t2 where "t2 = withContext (oi_task input) c1"
    obtain o2 w2 where r2: "agentRun deps FileAnalyst t2 w1 = (o2, w2)"
      by (cases "agentRun deps FileAnalyst t2 w1")
    have inc12: "strIncludes t2 (arr_output res1)"
      unfolding t2_def c1_def withContext_def strIncludes_iff
      by (rule exI[of _ "oi_task input @ nl @ nl @ ''Context: '' @ c0 @ nl @ nl @ ''System Info: ''"],
          rule exI[of _ "[]"]) simp
    show ?thesis
    proof (cases o2)
      case (Inl e)
      with assms r1 o1 r2
      have "tr = [\<lparr>invoked = SystemInspector, received = t1, outcome = Inr res1\<rparr>,
                  \<lparr>invoked = FileAnalyst, received = t2, outcome = Inl e\<rparr>]"
        and "r = Inl e"
        by (auto simp: runCompositeWorkflow_def runSystemDiagnostic_def runFileAnalysis_def
            runAgentAs_eq Let_def c0_def t1_def c1_def t2_def)
      then show ?thesis using inc12 by (simp add: less_Suc_eq)
    next
      case o2: (Inr res2)
      define c2 where "c2 = c1 @ nl @ nl @ ''File Analysis: '' @ arr_output res2"
      define t3 where "t3 = withContext (oi_task input) c2"
      obtain o3 w3 where r3: "agentRun deps ChangeProposer t3 w2 = (o3, w3)"
        by (cases "agentRun deps ChangeProposer t3 w2")
      have inc13: "strIncludes t3 (arr_output res1)"
        unfolding t3_def c2_def c1_def withContext_def strIncludes_iff
        by (rule exI[of _ "oi_task input @ nl @ nl @ ''Context: '' @ c0 @ nl @ nl @ ''System Info: ''"],
            rule exI[of _ "nl @ nl @ ''File Analysis: '' @ arr_output res2"]) simp
      have inc23: "strIncludes t3 (arr_output res2)"
        unfolding t3_def c2_def withContext_def strIncludes_iff
        by (rule exI[of _ "oi_task input @ nl @ nl @ ''Context: '' @ c1 @ nl @ nl @ ''File Analysis: ''"],
            rule exI[of _ "[]"]) simp
      have tr: "tr = [\<lparr>invoked = SystemInspector, received = t1, outcome = Inr res1\<rparr>,
                      \<lparr>invoked = FileAnalyst, received = t2, outcome = Inr res2\<rparr>,
                      \<lparr>invoked = ChangeProposer, received = t3, outcome = o3\<rparr>]"
        using assms r1 o1 r2 o2 r3
        by (auto simp: runCompositeWorkflow_def runSystemDiagnostic_def runFileAnalysis_def
            runChangeProposal_def runAgentAs_eq Let_def c0_def t1_def c1_def t2_def c2_def t3_def
            split: sum.splits)
      show ?thesis
        unfolding tr using inc12 inc13 inc23
        by (simp add: less_Suc_eq all_conj_distrib)
    qed
  qed
qed

theorem composite_order_and_context_witness:
  "systemRegexTest (toLowerCase (oi_task allThreeTask))
   \<and> fileRegexTest (toLowerCase (oi_task allThreeTask))
   \<and> changeRegexTest (toLowerCase (oi_task allThreeTask))
   \<and> map invoked (fst (snd (runCompositeWorkflow answeringAgents allThreeTask ([], 0))))
       = [SystemInspector, FileAnalyst, ChangeProposer]
   \<and> strIncludes
        (received (fst (snd (runCompositeWorkflow answeringAgents allThreeTask ([], 0))) ! 2))
        ''memory is fine''"
proof -
  let ?run = "runCompositeWorkflow answeringAgents allThreeTask ([], 0)"
  have h1: "systemRegexTest (toLowerCase (oi_task allThreeTask))" by code_simp
  have h2: "fileRegexTest (toLowerCase (oi_task allThreeTask))" by code_simp
  have h3: "changeRegexTest (toLowerCase (oi_task allThreeTask))" by code_simp
  have h4: "?run = (fst ?run, (fst (snd ?run), snd (snd ?run)))" by simp
  have len: "length (fst (snd ?run)) = 3" by code_simp
  have out: "outcome (fst (snd ?run) ! 0)
               = Inr \<lparr>arr_output = ''memory is fine'', arr_toolCalls = []\<rparr>" by code_simp
  from composite_order_and_context [OF h1 h2 h3 h4]
  have ord: "map invoked (fst (snd ?run))
               = take (length (fst (snd ?run))) [SystemInspector, FileAnalyst, ChangeProposer]"
    and inc: "\<forall>j < length (fst (snd ?run)). \<forall>i < j. \<exists>res. outcome (fst (snd ?run) ! i) = Inr res
                \<and> strIncludes (received (fst (snd ?run) ! j)) (arr_output res)"
    by blast+
  from inc len have "\<exists>res. outcome (fst (snd ?run) ! 0) = Inr res
                \<and> strIncludes (received (fst (snd ?run) ! 2)) (arr_output res)"
    by simp
  with out have "strIncludes (received (fst (snd ?run) ! 2)) ''memory is fine''"
    by auto
  with h1 h2 h3 ord len show ?thesis by simp
qed

text \<open>
  Claim C9. In a run resolved as composite, a step that throws is the last step invoked;
  the run answers \<open>success = false\<close> with the message of the exception, an empty final
  output and an empty list of agent results: the results of the steps that succeeded
  before the failure are not part of the answer.
\<close>

theorem composite_failure_aborts:
  assumes "run deps input ([], w) = (res, (tr, w'))"
      and "(case oi_taskType input of Some t \<Rightarrow> t | None \<Rightarrow> classifyTask (oi_task input))
             = Composite"
      and "i < length tr"
      and "outcome (tr ! i) = Inl e"
  shows "\<not> or_success res \<and> or_error res = Some (errorMessage e)
         \<and> or_agentResults res = [] \<and> or_finalOutput res = [] \<and> Suc i = length tr"
proof -
  obtain healthy w1 where hc: "healthCheck deps w = (healthy, w1)"
    by (cases "healthCheck deps w")
  show ?thesis
  proof (cases healthy)
    case False
    with assms(1) hc have "tr = []"
      by (auto simp: run_def Let_def)
    with assms(3) show ?thesis by simp
  next
    case True
    obtain r2 tr2 w2 where c: "runCompositeWorkflow deps input ([], w1) = (r2, (tr2, w2))"
      by (cases "runCompositeWorkflow deps input ([], w1)") auto
    from composite_shape [OF c]
    have shape: "\<forall>i < length tr2. isl (outcome (tr2 ! i)) \<longrightarrow>
                   Suc i = length tr2 \<and> r2 = Inl (projl (outcome (tr2 ! i)))"
      by simp
    have tr: "tr = tr2"
      using assms(1,2) hc True c
      by (auto simp: run_def Let_def split: sum.splits)
    with assms(3,4) shape have last: "Suc i = length tr" and r2: "r2 = Inl e"
      by auto
    have "res = \<lparr>or_success = False,
                 or_taskType = (case oi_taskType input of Some t \<Rightarrow> t | None \<Rightarrow> SystemDiagnostic),
                 or_agentResults = [], or_finalOutput = [],
                 or_totalDurationMs = dateNow deps w2 - dateNow deps w,
                 or_error = Some (errorMessage e)\<rparr>"
      using assms(1,2) hc True c r2
      by (auto simp: run_def Let_def)
    with last show ?thesis by simp
  qed
qed

theorem composite_failure_aborts_witness:
  "(case oi_taskType allThreeTask of Some t \<Rightarrow> t | None \<Rightarrow> classifyTask (oi_task allThreeTask))
     = Composite
   \<and> outcome (fst (snd (run failingAnalyst allThreeTask ([], 0))) ! 1)
       = Inl (Error ''model unavailable'')
   \<and> length (fst (snd (run failingAnalyst allThreeTask ([], 0)))) = 2
   \<and> \<not> or_success (fst (run failingAnalyst allThreeTask ([], 0)))
   \<and> or_error (fst (run failingAnalyst allThreeTask ([], 0))) = Some ''model unavailable''
   \<and> or_agentResults (fst (run failingAnalyst allThreeTask ([], 0))) = []"
proof -
  let ?run = "run failingAnalyst allThreeTask ([], 0)"
  have h1: "?run = (fst ?run, (fst (snd ?run), snd (snd ?run)))" by simp
  have h2: "(case oi_taskType allThreeTask of Some t \<Rightarrow> t
             | None \<Rightarrow> classifyTask (oi_task allThreeTask)) = Composite" by code_simp
  have len: "length (fst (snd ?run)) = 2" by code_simp
  then have h3: "1 < length (fst (snd ?run))" by simp
  have h4: "outcome (fst (snd ?run) ! 1) = Inl (Error ''model unavailable'')" by code_simp
  from composite_failure_aborts [OF h1 h2 h3 h4] h2 h4 len
  show ?thesis by (simp add: errorMessage_def)
qed

section \<open>Properties of the execution gateway\<close>

text \<open>
  The three \<open>register\<close> calls of the tools module succeed in turn and leave the
  registry used below.
\<close>

lemma toolRegistry_built:
  "\<exists>r1 r2. register [] (definition_of systemInfoTool) (executor systemInfoTool) = Inr r1
     \<and> register r1 (definition_of fileReadTool) (executor fileReadTool) = Inr r2
     \<and> register r2 (definition_of fileWriteTool) (executor fileWriteTool) = Inr toolRegistry"
  by (simp add: register_def registryHas_def toolRegistry_def systemInfoTool_def fileReadTool_def
      fileWriteTool_def castDefinition_def systemInfoDefinition_def fileReadDefinition_def
      fileWriteDefinition_def)

lemma registryGet_toolRegistry:
  "registryGet toolRegistry ''system-info'' = Some systemInfoTool"
  "registryGet toolRegistry ''file-read'' = Some fileReadTool"
  "registryGet toolRegistry ''file-write'' = Some fileWriteTool"
  by (simp_all add: registryGet_def toolRegistry_def)

lemma fileWriteTool_schema:
  "td_inputSchema (definition_of fileWriteTool) kvs = map_sum id FileWriteIn (fileWriteInputSchema kvs)"
  by (simp add: fileWriteTool_def castDefinition_def fileWriteDefinition_def)

lemma fileReadTool_schema:
  "td_inputSchema (definition_of fileReadTool) kvs = map_sum id FileReadIn (fileReadInputSchema kvs)"
  by (simp add: fileReadTool_def castDefinition_def fileReadDefinition_def)

text \<open>
  A call whose inputs fail the schema of the matched tool is answered with status 400,
  and the state of the server is returned as it was.
\<close>

lemma invalid_inputs_unaudited:
  assumes "ToolCallRequestSchema body = Inr req"
      and "registryGet registry (req_tool req) = Some tool"
      and "td_inputSchema (definition_of tool) (req_inputs req) = Inl issues"
  shows "handleCall registry env body st
           = (\<lparr>status = 400, payload = InvalidToolInputs (req_tool req) issues\<rparr>, st)"
  using assms by (simp add: handleCall_def Let_def)

text \<open>
  A call whose inputs pass the schema appends exactly one audit entry, whether the
  executor returns or throws, and the entry agrees with the reply in tool name, dry-run
  flag, outcome and error text.
\<close>

lemma executed_call_audited_once:
  assumes "ToolCallRequestSchema body = Inr req"
      and "registryGet registry (req_tool req) = Some tool"
      and "td_inputSchema (definition_of tool) (req_inputs req) = Inr v"
  shows "\<exists>entry r. auditSink (snd (handleCall registry env body st)) = auditSink st @ [entry]
           \<and> payload (fst (handleCall registry env body st)) = Response r
           \<and> audit_toolName entry = tcr_tool r
           \<and> audit_dryRun entry = tcr_dryRun r
           \<and> (audit_result entry = AuditSuccess) = tcr_success r
           \<and> audit_error entry = tcr_error r"
proof -
  obtain out h' where ex: "executor tool v (executionContext tool env) (host st) = (out, h')"
    by (cases "executor tool v (executionContext tool env) (host st)")
  show ?thesis
    using assms ex
    by (cases out)
       (simp_all add: handleCall_def completeCall_def Let_def logToolCall_def auditEntry_def
          createAuditEntry_def)
qed

text \<open>
  Claim C1. For a request that parses, names a registered tool and passes that tool's
  input schema, the context handed to the executor has \<open>dryRun\<close> true exactly when the
  registered definition is dangerous; the reply and the audit entry carry the same flag.
  The context is computed from the registered tool alone: the request does not occur in
  \<open>executionContext\<close>, and members of the body that the request schema does not name
  are dropped by its parse.
\<close>

theorem gateway_dryRun_from_safety:
  assumes "ToolCallRequestSchema body = Inr req"
      and "registryGet registry (req_tool req) = Some tool"
      and "td_inputSchema (definition_of tool) (req_inputs req) = Inr v"
  shows "dryRun (executionContext tool env) = (td_safety (definition_of tool) = Dangerous)
         \<and> handleCall registry env body st
             = completeCall tool env (req_tool req) (req_intent req) v (executionContext tool env)
                 (executor tool v (executionContext tool env) (host st)) st
         \<and> (\<exists>r. payload (fst (handleCall registry env body st)) = Response r
                \<and> tcr_dryRun r = (td_safety (definition_of tool) = Dangerous))
         \<and> audit_dryRun (last (auditSink (snd (handleCall registry env body st))))
             = (td_safety (definition_of tool) = Dangerous)"
proof -
  have ctx: "dryRun (executionContext tool env) = (td_safety (definition_of tool) = Dangerous)"
    by (simp add: executionContext_def)
  have run: "handleCall registry env body st
             = completeCall tool env (req_tool req) (req_intent req) v (executionContext tool env)
                 (executor tool v (executionContext tool env) (host st)) st"
    using assms by (simp add: handleCall_def Let_def)
  obtain out h' where ex: "executor tool v (executionContext tool env) (host st) = (out, h')"
    by (cases "executor tool v (executionContext tool env) (host st)")
  have resp: "\<exists>r. payload (fst (handleCall registry env body st)) = Response r
                \<and> tcr_dryRun r = (td_safety (definition_of tool) = Dangerous)"
    unfolding run ex
    by (cases out) (simp_all add: completeCall_def Let_def ctx)
  have aud: "audit_dryRun (last (auditSink (snd (handleCall registry env body st))))
             = (td_safety (definition_of tool) = Dangerous)"
    unfolding run ex
    by (cases out)
       (simp_all add: completeCall_def Let_def ctx logToolCall_def auditEntry_def
          createAuditEntry_def)
  from ctx run resp aud show ?thesis by blast
qed

text \<open>
  The flag at work: a body for the dangerous tool that carries \<open>dryRun: false\<close> both
  beside and inside its inputs is still run as a dry run.
\<close>

theorem gateway_dryRun_from_safety_witness:
  "ToolCallRequestSchema insistentWrite
     = Inr \<lparr>req_tool = ''file-write'', req_inputs = insistentWriteInputs,
            req_intent = Some ''really write''\<rparr>
   \<and> registryGet toolRegistry ''file-write'' = Some fileWriteTool
   \<and> td_inputSchema (definition_of fileWriteTool) insistentWriteInputs
       = Inr (FileWriteIn \<lparr>fw_path = ''o.txt'', fw_content = ''Hi'', fw_mode = Overwrite,
                           fw_createDirs = False\<rparr>)
   \<and> dryRun (executionContext fileWriteTool demoEnv)
   \<and> audit_dryRun (last (auditSink (snd (handleCall toolRegistry demoEnv insistentWrite demoState))))"
proof -
  let ?req = "\<lparr>req_tool = ''file-write'', req_inputs = insistentWriteInputs,
               req_intent = Some ''really write''\<rparr>"
  have h1: "ToolCallRequestSchema insistentWrite = Inr ?req"
    by code_simp
  have h2: "registryGet toolRegistry (req_tool ?req) = Some fileWriteTool"
    by (simp add: registryGet_toolRegistry)
  have s: "fileWriteInputSchema insistentWriteInputs
       = Inr \<lparr>fw_path = ''o.txt'', fw_content = ''Hi'', fw_mode = Overwrite,
                           fw_createDirs = False\<rparr>"
    by code_simp
  have h3: "td_inputSchema (definition_of fileWriteTool) (req_inputs ?req)
       = Inr (FileWriteIn \<lparr>fw_path = ''o.txt'', fw_content = ''Hi'', fw_mode = Overwrite,
                           fw_createDirs = False\<rparr>)"
    by (simp add: fileWriteTool_schema s)
  have d: "td_safety (definition_of fileWriteTool) = Dangerous"
    by code_simp
  note main = gateway_dryRun_from_safety [OF h1 h2 h3, of demoEnv demoState]
  from main d have a: "dryRun (executionContext fileWriteTool demoEnv)"
    by blast
  from main d
  have b: "audit_dryRun (last (auditSink (snd (handleCall toolRegistry demoEnv insistentWrite demoState))))"
    by blast
  have h2': "registryGet toolRegistry ''file-write'' = Some fileWriteTool"
    by (rule registryGet_toolRegistry)
  have h3': "td_inputSchema (definition_of fileWriteTool) insistentWriteInputs
       = Inr (FileWriteIn \<lparr>fw_path = ''o.txt'', fw_content = ''Hi'', fw_mode = Overwrite,
                           fw_createDirs = False\<rparr>)"
    by (simp add: fileWriteTool_schema s)
  from h1 h2' h3' a b show ?thesis by blast
qed

text \<open>
  Claim C3. The claim asks for exactly one audit entry for every call that matches a
  registered tool, validation failures included. The handler does append one once the
  inputs have passed the schema (see above), but a call to \<open>file-read\<close> with the path
  \<open>../etc/passwd\<close> matches the registered tool, fails its schema, and is answered 400
  with the audit sink left empty: the early return of the validation branch skips the
  audit, against the module's own principle that all calls are audited.
\<close>

theorem traversal_attempt_not_audited:
  "registryGet toolRegistry ''file-read'' = Some fileReadTool
   \<and> handleCall toolRegistry demoEnv (callBody ''file-read'' [(''path'', JStr ''../etc/passwd'')])
        demoState
      = (\<lparr>status = 400,
          payload = InvalidToolInputs ''file-read''
                      [ZodIssue [''path''] ''Path traversal not allowed'']\<rparr>, demoState)
   \<and> auditSink demoState = []"
proof -
  let ?req = "\<lparr>req_tool = ''file-read'', req_inputs = [(''path'', JStr ''../etc/passwd'')],
               req_intent = None\<rparr>"
  have h1: "ToolCallRequestSchema (callBody ''file-read'' [(''path'', JStr ''../etc/passwd'')])
              = Inr ?req"
    by code_simp
  have h2: "registryGet toolRegistry (req_tool ?req) = Some fileReadTool"
    by (simp add: registryGet_toolRegistry)
  have s: "fileReadInputSchema [(''path'', JStr ''../etc/passwd'')]
             = Inl [ZodIssue [''path''] ''Path traversal not allowed'']"
    by code_simp
  have h3: "td_inputSchema (definition_of fileReadTool) (req_inputs ?req)
              = Inl [ZodIssue [''path''] ''Path traversal not allowed'']"
    by (simp add: fileReadTool_schema s)
  have h4: "auditSink demoState = []" by (simp add: demoState_def)
  from invalid_inputs_unaudited [OF h1 h2 h3, of demoEnv demoState] h4
  show ?thesis by (simp add: registryGet_toolRegistry)
qed

text \<open>
  Claim C10, as amended. A request that parses and names no registered tool is answered
  with status 404 and an error text naming the tool; the state of the server, and with it
  the audit sink, is returned as it was.
\<close>

theorem unknown_tool_404_unaudited:
  assumes "ToolCallRequestSchema body = Inr req"
      and "registryGet registry (req_tool req) = None"
  shows "handleCall registry env body st
           = (\<lparr>status = 404, payload = NotFound (''Tool not found: '' @ req_tool req)\<rparr>, st)"
  using assms by (simp add: handleCall_def Let_def)

theorem unknown_tool_404_unaudited_witness:
  "ToolCallRequestSchema (callBody ''nope'' []) = Inr \<lparr>req_tool = ''nope'', req_inputs = [], req_intent = None\<rparr>
   \<and> registryGet toolRegistry ''nope'' = None
   \<and> handleCall toolRegistry demoEnv (callBody ''nope'' []) demoState
        = (\<lparr>status = 404, payload = NotFound ''Tool not found: nope''\<rparr>, demoState)"
proof -
  let ?req = "\<lparr>req_tool = ''nope'', req_inputs = [], req_intent = None\<rparr>"
  have h1: "ToolCallRequestSchema (callBody ''nope'' []) = Inr ?req"
    by code_simp
  have h2: "registryGet toolRegistry (req_tool ?req) = None"
    by (simp add: registryGet_def toolRegistry_def)
  from unknown_tool_404_unaudited [OF h1 h2, of demoEnv demoState] h1 h2
  show ?thesis by simp
qed

text \<open>
  Claim C10 as stated also says that unresolved lookups are the only calls that leave no
  audit entry. A body naming the registered tool \<open>file-read\<close>, with valid inputs, whose
  \<open>intent\<close> member is a number fails the request schema, is answered 400 before any
  lookup, and leaves no entry either.
\<close>

theorem malformed_request_unaudited:
  "ToolCallRequestSchema numericIntentCall
     = Inl [ZodIssue [''intent''] ''Expected string, received number'']
   \<and> registryGet toolRegistry ''file-read'' = Some fileReadTool
   \<and> handleCall toolRegistry demoEnv numericIntentCall demoState
      = (\<lparr>status = 400,
          payload = InvalidRequest [ZodIssue [''intent''] ''Expected string, received number'']\<rparr>,
         demoState)
   \<and> auditSink demoState = []"
proof -
  have h1: "ToolCallRequestSchema numericIntentCall
     = Inl [ZodIssue [''intent''] ''Expected string, received number'']"
    by code_simp
  have h2: "auditSink demoState = []" by (simp add: demoState_def)
  from h1 h2 show ?thesis
    by (simp add: handleCall_def registryGet_toolRegistry)
qed

text \<open>
  In general, a body that fails the request schema is answered 400 with the issues of the
  schema, whatever the registry, and the state of the server is returned as it was.
\<close>

lemma unparsed_body_unaudited:
  assumes "ToolCallRequestSchema body = Inl issues"
  shows "handleCall registry env body st
           = (\<lparr>status = 400, payload = InvalidRequest issues\<rparr>, st)"
  using assms by (simp add: handleCall_def)

section \<open>Path normalisation and the sandbox\<close>

lemma splitSlash_nonempty [simp]: "splitSlash s \<noteq> []"
  by (induction s) (auto split: list.splits)

lemma splitSlash_append_slash:
  "splitSlash (a @ CHR ''/'' # b) = splitSlash a @ splitSlash b"
proof (induction a)
  case Nil
  show ?case by simp
next
  case (Cons c cs)
  obtain x xs where x: "splitSlash cs = x # xs"
    by (cases "splitSlash cs") simp_all
  show ?case
    using Cons x by simp
qed

lemma splitSlash_no_slash: "seg \<in> set (splitSlash s) \<Longrightarrow> CHR ''/'' \<notin> set seg"
proof (induction s arbitrary: seg)
  case Nil
  then show ?case by simp
next
  case (Cons c cs)
  obtain x xs where x: "splitSlash cs = x # xs"
    by (cases "splitSlash cs") simp_all
  show ?case
    using Cons x by (auto split: if_splits)
qed

lemma splitSlash_slash_free: "CHR ''/'' \<notin> set s \<Longrightarrow> splitSlash s = [s]"
  by (induction s) auto

lemma splitSlash_joinWith:
  "xs \<noteq> [] \<Longrightarrow> \<forall>x\<in>set xs. CHR ''/'' \<notin> set x \<Longrightarrow> splitSlash (joinWith ''/'' xs) = xs"
proof (induction "''/''" xs rule: joinWith.induct)
  case 1
  then show ?case by simp
next
  case (2 x)
  then show ?case by (simp add: splitSlash_slash_free)
next
  case (3 x y ys)
  then show ?case
    by (simp add: splitSlash_append_slash splitSlash_slash_free)
qed

lemma first_segment_is_prefix: "\<exists>b. s = hd (splitSlash s) @ b"
proof (induction s)
  case Nil
  show ?case by simp
next
  case (Cons c cs)
  obtain x xs where x: "splitSlash cs = x # xs"
    by (cases "splitSlash cs") simp_all
  from Cons x obtain b where "cs = x @ b" by auto
  with x show ?case by simp
qed

lemma segment_is_substring: "seg \<in> set (splitSlash s) \<Longrightarrow> \<exists>a b. s = a @ seg @ b"
proof (induction s arbitrary: seg)
  case Nil
  then show ?case by simp
next
  case (Cons c cs)
  obtain x xs where x: "splitSlash cs = x # xs"
    by (cases "splitSlash cs") simp_all
  have later: "\<exists>a b. c # cs = a @ seg @ b" if "seg \<in> set (splitSlash cs)"
  proof -
    from Cons.IH [OF that] obtain a b where "cs = a @ seg @ b" by blast
    then have "c # cs = (c # a) @ seg @ b" by simp
    then show ?thesis by blast
  qed
  show ?case
  proof (cases "c = CHR ''/''")
    case True
    with Cons.prems have "seg = [] \<or> seg \<in> set (splitSlash cs)" by auto
    then show ?thesis
    proof
      assume "seg = []"
      then have "c # cs = [] @ seg @ (c # cs)" by simp
      then show ?thesis by blast
    next
      assume "seg \<in> set (splitSlash cs)"
      then show ?thesis by (rule later)
    qed
  next
    case False
    with Cons.prems x have "seg = c # x \<or> seg \<in> set xs" by auto
    then show ?thesis
    proof
      assume s: "seg = c # x"
      from first_segment_is_prefix [of cs] x obtain b where "cs = x @ b" by auto
      with s have "c # cs = [] @ seg @ b" by simp
      then show ?thesis by blast
    next
      assume "seg \<in> set xs"
      then have "seg \<in> set (splitSlash cs)" using x by simp
      then show ?thesis by (rule later)
    qed
  qed
qed

lemma no_dotdot_segment:
  assumes "\<not> strIncludes p ''..''"
  shows "''..'' \<notin> set (splitSlash p)"
proof
  assume "''..'' \<in> set (splitSlash p)"
  from segment_is_substring [OF this] have "strIncludes p ''..''"
    unfolding strIncludes_iff .
  with assms show False by simp
qed

lemma foldl_normalizeStep_no_dotdot:
  "''..'' \<notin> set xs \<Longrightarrow> foldl (normalizeStep a) st xs = st @ filter keptSegment xs"
  by (induction xs arbitrary: st) (auto simp: normalizeStep_def keptSegment_def)

lemma foldl_normalizeStep_skip_empty [simp]:
  "foldl (normalizeStep a) st (xs @ [[]]) = foldl (normalizeStep a) st xs"
  "foldl (normalizeStep a) st ([] # xs) = foldl (normalizeStep a) st xs"
  by (simp_all add: normalizeStep_def)

text \<open>Segments kept without allowAboveRoot are never empty, never a dot, never two dots.\<close>

lemma normalizeStep_False_plain:
  assumes "\<forall>s\<in>set st. keptSegment s \<and> s \<noteq> ''..''"
  shows "\<forall>s\<in>set (normalizeStep False st seg). keptSegment s \<and> s \<noteq> ''..''"
  using assms by (auto simp: normalizeStep_def keptSegment_def dest: in_set_butlastD)

lemma foldl_False_plain:
  assumes "\<forall>s\<in>set st. keptSegment s \<and> s \<noteq> ''..''"
  shows "\<forall>s\<in>set (foldl (normalizeStep False) st xs). keptSegment s \<and> s \<noteq> ''..''"
  using assms
proof (induction xs arbitrary: st)
  case Nil
  then show ?case by simp
next
  case (Cons x xs)
  from normalizeStep_False_plain [OF Cons.prems]
  have "\<forall>s\<in>set (normalizeStep False st x). keptSegment s \<and> s \<noteq> ''..''" .
  from Cons.IH [OF this] show ?case by simp
qed

lemma normalizeStep_True_kept:
  assumes "\<forall>s\<in>set st. keptSegment s"
  shows "\<forall>s\<in>set (normalizeStep True st seg). keptSegment s"
  using assms by (auto simp: normalizeStep_def keptSegment_def dest: in_set_butlastD)

lemma foldl_True_kept:
  assumes "\<forall>s\<in>set st. keptSegment s"
  shows "\<forall>s\<in>set (foldl (normalizeStep True) st xs). keptSegment s"
  using assms
proof (induction xs arbitrary: st)
  case Nil
  then show ?case by simp
next
  case (Cons x xs)
  from normalizeStep_True_kept [OF Cons.prems]
  have "\<forall>s\<in>set (normalizeStep True st x). keptSegment s" .
  from Cons.IH [OF this] show ?case by simp
qed

text \<open>Normalising twice from the root is normalising once.\<close>

lemma foldl_False_idem:
  "foldl (normalizeStep False) [] (foldl (normalizeStep False) [] xs)
     = foldl (normalizeStep False) [] xs"
proof -
  let ?K = "foldl (normalizeStep False) [] xs"
  have plain: "\<forall>s\<in>set ?K. keptSegment s \<and> s \<noteq> ''..''"
    by (rule foldl_False_plain) simp
  then have "''..'' \<notin> set ?K" by blast
  from foldl_normalizeStep_no_dotdot [OF this, of False "[]"] plain
  show ?thesis by (simp add: filter_id_conv)
qed

text \<open>
  Resolving a path that was first normalised with allowAboveRoot gives what resolving
  the path itself gives.
\<close>

lemma normalizeStep_skip:
  "\<not> keptSegment x \<Longrightarrow> normalizeStep a st x = st"
  by (auto simp: normalizeStep_def keptSegment_def)

lemma normalizeStep_push:
  "keptSegment x \<Longrightarrow> x \<noteq> ''..'' \<Longrightarrow> normalizeStep a st x = st @ [x]"
  by (auto simp: normalizeStep_def keptSegment_def)

lemma normalizeStep_pop:
  "y \<noteq> ''..'' \<Longrightarrow> normalizeStep a (st @ [y]) ''..'' = st"
  by (simp add: normalizeStep_def)

lemma normalizeStep_above_root:
  "st = [] \<or> last st = ''..'' \<Longrightarrow> normalizeStep True st ''..'' = st @ [''..'']"
  by (auto simp: normalizeStep_def)

lemma foldl_snoc_step:
  "foldl (normalizeStep a) st (xs @ [x]) = normalizeStep a (foldl (normalizeStep a) st xs) x"
  by simp

lemma foldl_False_after_True:
  "foldl (normalizeStep False) st (foldl (normalizeStep True) [] xs)
     = foldl (normalizeStep False) st xs"
proof (induction xs rule: rev_induct)
  case Nil
  show ?case by simp
next
  case (snoc x xs)
  let ?N = "foldl (normalizeStep True) [] xs"
  let ?F = "\<lambda>ys. foldl (normalizeStep False) st ys"
  have kept: "\<forall>s\<in>set ?N. keptSegment s"
    by (rule foldl_True_kept) simp
  have goal: "?F (normalizeStep True ?N x) = normalizeStep False (?F xs) x"
  proof (cases "keptSegment x")
    case False
    then show ?thesis
      by (simp add: normalizeStep_skip snoc)
  next
    case kx: True
    show ?thesis
    proof (cases "x = ''..''")
      case False
      with kx have "normalizeStep True ?N x = ?N @ [x]"
        by (simp add: normalizeStep_push)
      moreover have "?F (?N @ [x]) = normalizeStep False (?F ?N) x"
        by (rule foldl_snoc_step)
      ultimately show ?thesis
        by (simp add: snoc)
    next
      case dd: True
      show ?thesis
      proof (cases "?N = [] \<or> last ?N = ''..''")
        case True
        then have "normalizeStep True ?N x = ?N @ [x]"
          unfolding dd by (rule normalizeStep_above_root)
        moreover have "?F (?N @ [x]) = normalizeStep False (?F ?N) x"
          by (rule foldl_snoc_step)
        ultimately show ?thesis
          by (simp add: snoc)
      next
        case False
        then obtain N' y where N: "?N = N' @ [y]" and y: "y \<noteq> ''..''"
          by (metis append_butlast_last_id)
        from kept N have ky: "keptSegment y" by simp
        have "?F ?N = normalizeStep False (?F N') y"
          unfolding N by (rule foldl_snoc_step)
        also have "\<dots> = ?F N' @ [y]"
          using ky y by (rule normalizeStep_push)
        finally have "?F xs = ?F N' @ [y]"
          by (simp add: snoc)
        then have r: "normalizeStep False (?F xs) x = ?F N'"
          unfolding dd using y by (simp add: normalizeStep_pop)
        have "normalizeStep True ?N x = N'"
          unfolding dd N using y by (rule normalizeStep_pop)
        with r show ?thesis by simp
      qed
    qed
  qed
  have "foldl (normalizeStep True) [] (xs @ [x]) = normalizeStep True ?N x"
    by (rule foldl_snoc_step)
  moreover have "?F (xs @ [x]) = normalizeStep False (?F xs) x"
    by (rule foldl_snoc_step)
  ultimately show ?case using goal by simp
qed

lemma normalizeStep_Nil [simp]: "normalizeStep a st [] = st"
  by (simp add: normalizeStep_def)

lemma normalizeStep_dot [simp]: "normalizeStep a st ''.'' = st"
  by (simp add: normalizeStep_def)

lemma splitSlash_trailing: "splitSlash (x @ ''/'') = splitSlash x @ [[]]"
  using splitSlash_append_slash [of x "[]"] by simp

lemma pathResolve_segments:
  assumes "cwd \<noteq> []" "hd cwd = CHR ''/''" "x \<noteq> []"
  shows "pathResolve cwd x = ''/'' @ joinWith ''/'' (resolvedSegments cwd x)"
proof (cases "hd x = CHR ''/''")
  case True
  with assms show ?thesis
    by (simp add: pathResolve_def resolvedSegments_def normalizeString_def Let_def
        splitSlash_trailing)
next
  case False
  have "splitSlash (cwd @ ''/'' @ x @ ''/'') = splitSlash cwd @ splitSlash x @ [[]]"
    using splitSlash_append_slash [of cwd "x @ ''/''"] splitSlash_trailing [of x] by simp
  with False assms show ?thesis
    by (simp add: pathResolve_def resolvedSegments_def normalizeString_def Let_def)
qed

lemma normalizeStep_subset: "set (normalizeStep a st x) \<subseteq> set st \<union> {x}"
  by (auto simp: normalizeStep_def dest: in_set_butlastD)

lemma foldl_normalizeStep_subset: "set (foldl (normalizeStep a) st xs) \<subseteq> set st \<union> set xs"
proof (induction xs arbitrary: st)
  case Nil
  show ?case by simp
next
  case (Cons x xs)
  from Cons [of "normalizeStep a st x"] normalizeStep_subset [of a st x]
  show ?case by auto
qed

lemma normalized_slash_free:
  "s \<in> set (foldl (normalizeStep a) [] (splitSlash y)) \<Longrightarrow> CHR ''/'' \<notin> set s"
  using foldl_normalizeStep_subset [of a "[]" "splitSlash y"] splitSlash_no_slash [of s y]
  by auto

lemma joinWith_append:
  "xs \<noteq> [] \<Longrightarrow> ys \<noteq> [] \<Longrightarrow> joinWith sep (xs @ ys) = joinWith sep xs @ sep @ joinWith sep ys"
proof (induction sep xs rule: joinWith.induct)
  case (1 sep)
  then show ?case by simp
next
  case (2 sep x)
  then show ?case by (cases ys) simp_all
next
  case (3 sep x y zs)
  then show ?case by simp
qed

lemma joinWith_hd:
  "xs \<noteq> [] \<Longrightarrow> hd xs \<noteq> [] \<Longrightarrow> joinWith sep xs \<noteq> [] \<and> hd (joinWith sep xs) = hd (hd xs)"
  by (induction sep xs rule: joinWith.induct) auto

lemma joinWith_empty_iff:
  assumes "\<forall>s\<in>set K. keptSegment s"
  shows "joinWith ''/'' K = [] \<longleftrightarrow> K = []"
proof (cases K)
  case Nil
  then show ?thesis by simp
next
  case (Cons k ks)
  with assms have "hd K \<noteq> []" by (simp add: keptSegment_def)
  with Cons joinWith_hd [of K "''/''"] show ?thesis by simp
qed

lemma splitSlash_normal_form:
  assumes "K \<noteq> []" "\<forall>s\<in>set K. CHR ''/'' \<notin> set s"
  shows "splitSlash (joinWith ''/'' K @ (if t then ''/'' else [])) = K @ (if t then [[]] else [])"
    and "splitSlash (''/'' @ joinWith ''/'' K @ (if t then ''/'' else []))
           = [] # K @ (if t then [[]] else [])"
  using assms by (simp_all add: splitSlash_joinWith splitSlash_trailing)

lemma pathNormalize_resolved:
  assumes "y \<noteq> []"
  shows "pathNormalize y \<noteq> []
         \<and> (hd (pathNormalize y) = CHR ''/'') = (hd y = CHR ''/'')
         \<and> resolvedSegments cwd (pathNormalize y) = resolvedSegments cwd y"
proof (cases "hd y = CHR ''/''")
  case abs: True
  let ?K = "foldl (normalizeStep False) [] (splitSlash y)"
  have plain: "\<forall>s\<in>set ?K. keptSegment s \<and> s \<noteq> ''..''"
    by (rule foldl_False_plain) simp
  then have kept: "\<forall>s\<in>set ?K. keptSegment s" by blast
  have sf: "\<forall>s\<in>set ?K. CHR ''/'' \<notin> set s"
    using normalized_slash_free by blast
  show ?thesis
  proof (cases "?K = []")
    case True
    with assms abs have "pathNormalize y = ''/''"
      by (simp add: pathNormalize_def normalizeString_def Let_def)
    with abs True show ?thesis
      by (simp add: resolvedSegments_def)
  next
    case False
    let ?t = "last y = CHR ''/''"
    from False kept have ne: "joinWith ''/'' ?K \<noteq> []"
      by (simp add: joinWith_empty_iff)
    with assms abs
    have pn: "pathNormalize y = ''/'' @ joinWith ''/'' ?K @ (if ?t then ''/'' else [])"
      by (simp add: pathNormalize_def normalizeString_def Let_def)
    have "splitSlash (pathNormalize y) = [] # ?K @ (if ?t then [[]] else [])"
      unfolding pn using False sf by (rule splitSlash_normal_form)
    then have "resolvedSegments cwd (pathNormalize y) = foldl (normalizeStep False) [] ?K"
      by (simp add: resolvedSegments_def pn)
    also have "\<dots> = ?K" by (rule foldl_False_idem)
    finally show ?thesis
      using abs by (simp add: pn resolvedSegments_def)
  qed
next
  case rel: False
  let ?K = "foldl (normalizeStep True) [] (splitSlash y)"
  let ?C = "foldl (normalizeStep False) [] (splitSlash cwd)"
  have kept: "\<forall>s\<in>set ?K. keptSegment s"
    by (rule foldl_True_kept) simp
  have sf: "\<forall>s\<in>set ?K. CHR ''/'' \<notin> set s"
    using normalized_slash_free by blast
  have direct: "resolvedSegments cwd y = foldl (normalizeStep False) ?C ?K"
    using rel by (simp add: resolvedSegments_def foldl_False_after_True)
  show ?thesis
  proof (cases "?K = []")
    case True
    with assms rel
    have "pathNormalize y = ''./'' \<or> pathNormalize y = ''.''"
      by (simp add: pathNormalize_def normalizeString_def Let_def)
    then show ?thesis
      using rel True direct by (auto simp: resolvedSegments_def)
  next
    case False
    let ?t = "last y = CHR ''/''"
    from False kept have ne: "joinWith ''/'' ?K \<noteq> []"
      by (simp add: joinWith_empty_iff)
    with assms rel
    have pn: "pathNormalize y = joinWith ''/'' ?K @ (if ?t then ''/'' else [])"
      by (simp add: pathNormalize_def normalizeString_def Let_def)
    from False kept have hdK: "hd ?K \<noteq> []"
      by (cases ?K) (simp_all add: keptSegment_def)
    from False sf have "CHR ''/'' \<notin> set (hd ?K)"
      by (cases ?K) simp_all
    with hdK have "hd (hd ?K) \<noteq> CHR ''/''"
      by (cases "hd ?K") auto
    with joinWith_hd [OF False hdK, of "''/''"] ne
    have hdpn: "hd (pathNormalize y) \<noteq> CHR ''/''"
      by (simp add: pn)
    have "splitSlash (pathNormalize y) = ?K @ (if ?t then [[]] else [])"
      unfolding pn using False sf by (rule splitSlash_normal_form)
    then have "resolvedSegments cwd (pathNormalize y) = foldl (normalizeStep False) ?C ?K"
      using hdpn by (simp add: resolvedSegments_def)
    with direct hdpn rel ne show ?thesis
      by (simp add: pn)
  qed
qed

text \<open>A path without two consecutive dots normalises to a path without a \<open>..\<close> segment.\<close>

lemma pathNormalize_no_dotdot:
  assumes "''..'' \<notin> set (splitSlash p)"
  shows "''..'' \<notin> set (splitSlash (pathNormalize p))"
proof (cases "p = []")
  case True
  then show ?thesis by (simp add: pathNormalize_def)
next
  case False
  let ?a = "hd p \<noteq> CHR ''/''"
  let ?K = "foldl (normalizeStep ?a) [] (splitSlash p)"
  let ?t = "last p = CHR ''/''"
  have K: "?K = filter keptSegment (splitSlash p)"
    using foldl_normalizeStep_no_dotdot [OF assms, of ?a "[]"] by simp
  then have nodd: "''..'' \<notin> set ?K"
    using assms by simp
  have kept: "\<forall>s\<in>set ?K. keptSegment s"
    unfolding K by simp
  have sf: "\<forall>s\<in>set ?K. CHR ''/'' \<notin> set s"
    using normalized_slash_free by blast
  show ?thesis
  proof (cases "?K = []")
    case True
    with False have "pathNormalize p \<in> {''/'', ''./'', ''.''}"
      by (simp add: pathNormalize_def normalizeString_def Let_def)
    then show ?thesis by auto
  next
    case ne: False
    with kept have "joinWith ''/'' ?K \<noteq> []"
      by (simp add: joinWith_empty_iff)
    with False
    have "pathNormalize p = joinWith ''/'' ?K @ (if ?t then ''/'' else [])
          \<or> pathNormalize p = ''/'' @ joinWith ''/'' ?K @ (if ?t then ''/'' else [])"
      by (simp add: pathNormalize_def normalizeString_def Let_def)
    with splitSlash_normal_form [OF ne sf, of ?t]
    have "set (splitSlash (pathNormalize p)) \<subseteq> set ?K \<union> {[]}"
      by (auto split: if_splits)
    with nodd show ?thesis by auto
  qed
qed

lemma liesWithin_extension:
  assumes "\<forall>s\<in>set W. keptSegment s"
  shows "liesWithin (''/'' @ joinWith ''/'' W) (''/'' @ joinWith ''/'' (W @ Z))"
proof (cases "W = [] \<or> Z = []")
  case True
  then show ?thesis
    by (auto simp: liesWithin_def startsWith_def)
next
  case False
  then have j: "joinWith ''/'' (W @ Z) = joinWith ''/'' W @ ''/'' @ joinWith ''/'' Z"
    by (simp add: joinWith_append)
  from False assms have "joinWith ''/'' W \<noteq> []"
    by (simp add: joinWith_empty_iff)
  then show ?thesis
    by (simp add: liesWithin_def startsWith_def j)
qed

lemma take_of_longer_take:
  assumes "take (Suc (length r)) f = r @ x"
  shows "take (length r) f = r"
proof -
  have "take (length r) f = take (length r) (take (Suc (length r)) f)"
    by (simp add: min_def)
  also have "\<dots> = r"
    by (simp add: assms)
  finally show ?thesis .
qed

lemma liesWithin_startsWith: "liesWithin r f \<Longrightarrow> startsWith f r"
  by (auto simp: liesWithin_def startsWith_def split: if_splits dest: take_of_longer_take)

lemma SANDBOX_DIR_nonempty [simp]: "SANDBOX_DIR h \<noteq> []"
  by (simp add: SANDBOX_DIR_def split: option.splits)

text \<open>
  On a host whose working directory is absolute, a path without two consecutive dots
  resolves, the way both file executors resolve it, to the sandbox directory or to a
  place below it.
\<close>

lemma undotted_path_stays_inside:
  assumes cwd: "workingDirectory h \<noteq> []" "hd (workingDirectory h) = CHR ''/''"
      and p: "\<not> strIncludes p ''..''"
  shows "liesWithin (pathResolve (workingDirectory h) (SANDBOX_DIR h))
           (pathResolve (workingDirectory h) (pathJoin [SANDBOX_DIR h, pathNormalize p]))"
proof -
  let ?cwd = "workingDirectory h"
  let ?S = "SANDBOX_DIR h"
  let ?np = "pathNormalize p"
  let ?y = "?S @ ''/'' @ ?np"
  let ?W = "resolvedSegments ?cwd ?S"
  have np_ne: "?np \<noteq> []"
  proof (cases "p = []")
    case True
    then show ?thesis by (simp add: pathNormalize_def)
  next
    case False
    from pathNormalize_resolved [OF this] show ?thesis by blast
  qed
  have join: "pathJoin [?S, ?np] = pathNormalize ?y"
    using np_ne by (simp add: pathJoin_def)
  have y_ne: "?y \<noteq> []" by simp
  from pathNormalize_resolved [OF y_ne, of ?cwd]
  have j_ne: "pathNormalize ?y \<noteq> []"
    and j_seg: "resolvedSegments ?cwd (pathNormalize ?y) = resolvedSegments ?cwd ?y"
    by blast+
  have "splitSlash ?y = splitSlash ?S @ splitSlash ?np"
    using splitSlash_append_slash [of ?S ?np] by simp
  moreover have "hd ?y = hd ?S" by simp
  ultimately have y_seg: "resolvedSegments ?cwd ?y = foldl (normalizeStep False) ?W (splitSlash ?np)"
    by (simp add: resolvedSegments_def)
  have "''..'' \<notin> set (splitSlash ?np)"
    by (rule pathNormalize_no_dotdot) (rule no_dotdot_segment [OF p])
  from foldl_normalizeStep_no_dotdot [OF this, of False ?W]
  have full_seg: "resolvedSegments ?cwd (pathNormalize ?y) = ?W @ filter keptSegment (splitSlash ?np)"
    using j_seg y_seg by simp
  have "\<forall>s\<in>set (foldl (normalizeStep False) [] (splitSlash ?cwd)).
           keptSegment s \<and> s \<noteq> ''..''"
    by (rule foldl_False_plain) simp
  then have "\<forall>s\<in>set (if hd ?S = CHR ''/'' then []
                        else foldl (normalizeStep False) [] (splitSlash ?cwd)).
               keptSegment s \<and> s \<noteq> ''..''"
    by simp
  then have "\<forall>s\<in>set ?W. keptSegment s \<and> s \<noteq> ''..''"
    unfolding resolvedSegments_def by (rule foldl_False_plain)
  then have W_kept: "\<forall>s\<in>set ?W. keptSegment s" by blast
  have root: "pathResolve ?cwd ?S = ''/'' @ joinWith ''/'' ?W"
    using cwd by (simp add: pathResolve_segments)
  have full: "pathResolve ?cwd (pathJoin [?S, ?np])
                = ''/'' @ joinWith ''/'' (?W @ filter keptSegment (splitSlash ?np))"
    unfolding join using pathResolve_segments [OF cwd j_ne] by (simp only: full_seg)
  show ?thesis
    unfolding root full using W_kept by (rule liesWithin_extension)
qed

section \<open>Properties of the executors\<close>

lemma pathIssues_Nil:
  "pathIssues v = [] \<Longrightarrow> \<exists>p. v = Some (JStr p) \<and> p \<noteq> [] \<and> \<not> strIncludes p ''..''"
  by (auto simp: pathIssues_def invalidType_def split: option.splits json.splits if_splits)

lemma fileWriteInputSchema_path:
  assumes "fileWriteInputSchema raw = Inr input"
  shows "member raw ''path'' = Some (JStr (fw_path input)) \<and> \<not> strIncludes (fw_path input) ''..''"
proof -
  from assms have "pathIssues (member raw ''path'') = []"
    by (auto simp: fileWriteInputSchema_def Let_def split: if_splits)
  from pathIssues_Nil [OF this] obtain p
    where p: "member raw ''path'' = Some (JStr p)" "\<not> strIncludes p ''..''" by blast
  from assms p have "fw_path input = p"
    by (auto simp: fileWriteInputSchema_def Let_def split: if_splits)
  with p show ?thesis by simp
qed

lemma fileReadInputSchema_path:
  assumes "fileReadInputSchema raw = Inr input"
  shows "member raw ''path'' = Some (JStr (fr_path input)) \<and> \<not> strIncludes (fr_path input) ''..''"
proof -
  from assms have "pathIssues (member raw ''path'') = []"
    by (auto simp: fileReadInputSchema_def Let_def split: if_splits)
  from pathIssues_Nil [OF this] obtain p
    where p: "member raw ''path'' = Some (JStr p)" "\<not> strIncludes p ''..''" by blast
  from assms p have "fr_path input = p"
    by (auto simp: fileReadInputSchema_def Let_def split: if_splits)
  with p show ?thesis by simp
qed

lemma fileWriteExecutor_host: "snd (fileWriteExecutor input context h) = h"
  by (simp add: fileWriteExecutor_def Let_def)

lemma fileWriteTool_host: "snd (executor fileWriteTool v context h) = h"
  by (cases v)
     (simp_all add: fileWriteTool_def castExecutor_def fileWriteExecutor_def Let_def
        split: prod.splits)

lemma pathIssues_traversal:
  "strIncludes p ''..'' \<Longrightarrow>
     ZodIssue [''path''] ''Path traversal not allowed'' \<in> set (pathIssues (Some (JStr p)))"
  by (simp add: pathIssues_def)

lemma fileRead_rejects_traversal:
  assumes "member raw ''path'' = Some (JStr p)" "strIncludes p ''..''"
  shows "\<exists>issues. fileReadInputSchema raw = Inl issues
           \<and> ZodIssue [''path''] ''Path traversal not allowed'' \<in> set issues"
proof -
  let ?issues = "pathIssues (member raw ''path'') @ maxBytesIssues (member raw ''maxBytes'')
                     @ encodingIssues (member raw ''encoding'')"
  from assms have "ZodIssue [''path''] ''Path traversal not allowed'' \<in> set ?issues"
    by (simp add: pathIssues_traversal)
  moreover from this have "?issues \<noteq> []" by auto
  ultimately show ?thesis
    by (simp add: fileReadInputSchema_def Let_def)
qed

lemma fileWrite_rejects_traversal:
  assumes "member raw ''path'' = Some (JStr p)" "strIncludes p ''..''"
  shows "\<exists>issues. fileWriteInputSchema raw = Inl issues
           \<and> ZodIssue [''path''] ''Path traversal not allowed'' \<in> set issues"
proof -
  let ?issues = "pathIssues (member raw ''path'') @ contentIssues (member raw ''content'')
                     @ modeIssues (member raw ''mode'')
                     @ createDirsIssues (member raw ''createDirs'')"
  from assms have "ZodIssue [''path''] ''Path traversal not allowed'' \<in> set ?issues"
    by (simp add: pathIssues_traversal)
  moreover from this have "?issues \<noteq> []" by auto
  ultimately show ?thesis
    by (simp add: fileWriteInputSchema_def Let_def)
qed

text \<open>
  Claim C2. The file-write executor returns the host exactly as it received it, for every
  input and every context: it performs no file-system operation at all. With
  \<open>dryRun\<close> true and an input that the tool's schema accepts (on a host whose working
  directory is absolute) it returns success with a non-empty \<open>simulatedAction\<close>; with
  \<open>dryRun\<close> true and any input at all it returns that success or the failure of the
  sandbox test; with \<open>dryRun\<close> false it refuses with a failure carrying an error text
  and neither data nor a simulated action. Through the gateway, a call naming
  \<open>file-write\<close> leaves the host unchanged whatever its inputs.
\<close>

theorem fileWrite_never_writes:
  "snd (fileWriteExecutor input context h) = h
   \<and> (dryRun context \<and> fileWriteInputSchema raw = Inr input
        \<and> workingDirectory h \<noteq> [] \<and> hd (workingDirectory h) = CHR ''/''
      \<longrightarrow> (\<exists>r a. fst (fileWriteExecutor input context h) = Inr r \<and> ter_success r
                 \<and> ter_error r = None \<and> ter_simulatedAction r = Some a \<and> a \<noteq> []))
   \<and> (dryRun context
      \<longrightarrow> (\<exists>r. fst (fileWriteExecutor input context h) = Inr r
               \<and> (ter_success r \<and> (\<exists>a. ter_simulatedAction r = Some a \<and> a \<noteq> [])
                  \<or> r = failure ''Path escapes sandbox directory'')))
   \<and> (\<not> dryRun context
      \<longrightarrow> (\<exists>r. fst (fileWriteExecutor input context h) = Inr r \<and> \<not> ter_success r
               \<and> ter_error r \<noteq> None \<and> ter_data r = None \<and> ter_simulatedAction r = None))
   \<and> (ToolCallRequestSchema body = Inr req \<and> req_tool req = ''file-write''
      \<longrightarrow> host (snd (handleCall toolRegistry env body st)) = host st)"
proof (intro conjI impI)
  show "snd (fileWriteExecutor input context h) = h"
    by (rule fileWriteExecutor_host)
next
  assume a: "dryRun context \<and> fileWriteInputSchema raw = Inr input
        \<and> workingDirectory h \<noteq> [] \<and> hd (workingDirectory h) = CHR ''/''"
  then have "\<not> strIncludes (fw_path input) ''..''"
    using fileWriteInputSchema_path by blast
  with a have "liesWithin (pathResolve (workingDirectory h) (SANDBOX_DIR h))
           (pathResolve (workingDirectory h) (pathJoin [SANDBOX_DIR h, pathNormalize (fw_path input)]))"
    by (intro undotted_path_stays_inside) simp_all
  then have "startsWith
           (pathResolve (workingDirectory h) (pathJoin [SANDBOX_DIR h, pathNormalize (fw_path input)]))
           (pathResolve (workingDirectory h) (SANDBOX_DIR h))"
    by (rule liesWithin_startsWith)
  with a show "\<exists>r a. fst (fileWriteExecutor input context h) = Inr r \<and> ter_success r
                 \<and> ter_error r = None \<and> ter_simulatedAction r = Some a \<and> a \<noteq> []"
    by (simp add: fileWriteExecutor_def Let_def)
next
  assume "dryRun context"
  then show "\<exists>r. fst (fileWriteExecutor input context h) = Inr r
               \<and> (ter_success r \<and> (\<exists>a. ter_simulatedAction r = Some a \<and> a \<noteq> [])
                  \<or> r = failure ''Path escapes sandbox directory'')"
    by (simp add: fileWriteExecutor_def Let_def)
next
  assume "\<not> dryRun context"
  then show "\<exists>r. fst (fileWriteExecutor input context h) = Inr r \<and> \<not> ter_success r
               \<and> ter_error r \<noteq> None \<and> ter_data r = None \<and> ter_simulatedAction r = None"
    by (simp add: fileWriteExecutor_def Let_def failure_def)
next
  assume a: "ToolCallRequestSchema body = Inr req \<and> req_tool req = ''file-write''"
  show "host (snd (handleCall toolRegistry env body st)) = host st"
  proof (cases "td_inputSchema (definition_of fileWriteTool) (req_inputs req)")
    case (Inl issues)
    with a show ?thesis
      by (simp add: handleCall_def Let_def registryGet_toolRegistry)
  next
    case (Inr v)
    obtain out h' where ex: "executor fileWriteTool v (executionContext fileWriteTool env) (host st)
                               = (out, h')"
      by (cases "executor fileWriteTool v (executionContext fileWriteTool env) (host st)")
    with fileWriteTool_host [of v "executionContext fileWriteTool env" "host st"]
    have "h' = host st" by simp
    with a Inr ex show ?thesis
      by (cases out)
         (simp_all add: handleCall_def Let_def registryGet_toolRegistry completeCall_def
            logToolCall_def)
  qed
qed

theorem fileWrite_never_writes_witness:
  "dryRun dryContext
   \<and> fileWriteInputSchema [(''path'', JStr ''o.txt''), (''content'', JStr ''Hi'')] = Inr smallWrite
   \<and> hd (workingDirectory demoHost) = CHR ''/''
   \<and> fst (fileWriteExecutor smallWrite dryContext demoHost)
       = Inr \<lparr>ter_success = True,
              ter_data = Some \<lparr>wo_path = ''o.txt'', wo_bytesWritten = 2, wo_mode = Overwrite\<rparr>,
              ter_error = None,
              ter_simulatedAction = Some ''Would overwrite 2 bytes to /tmp/mcp-sandbox/o.txt''\<rparr>
   \<and> snd (fileWriteExecutor smallWrite dryContext demoHost) = demoHost
   \<and> \<not> dryRun wetContext
   \<and> fst (fileWriteExecutor smallWrite wetContext demoHost)
       = Inr (failure ''Write operations are disabled. This tool runs in dry-run mode only.'')
   \<and> snd (fileWriteExecutor smallWrite wetContext demoHost) = demoHost"
proof -
  have h1: "dryRun dryContext" by code_simp
  have h2: "fileWriteInputSchema [(''path'', JStr ''o.txt''), (''content'', JStr ''Hi'')]
              = Inr smallWrite" by code_simp
  have h3: "hd (workingDirectory demoHost) = CHR ''/''" by code_simp
  have h4: "\<not> dryRun wetContext" by code_simp
  have e1: "fst (fileWriteExecutor smallWrite dryContext demoHost)
       = Inr \<lparr>ter_success = True,
              ter_data = Some \<lparr>wo_path = ''o.txt'', wo_bytesWritten = 2, wo_mode = Overwrite\<rparr>,
              ter_error = None,
              ter_simulatedAction = Some ''Would overwrite 2 bytes to /tmp/mcp-sandbox/o.txt''\<rparr>"
    by code_simp
  have e2: "fst (fileWriteExecutor smallWrite wetContext demoHost)
       = Inr (failure ''Write operations are disabled. This tool runs in dry-run mode only.'')"
    by code_simp
  from fileWrite_never_writes [of smallWrite dryContext demoHost]
  have s1: "snd (fileWriteExecutor smallWrite dryContext demoHost) = demoHost" by blast
  from fileWrite_never_writes [of smallWrite wetContext demoHost]
  have s2: "snd (fileWriteExecutor smallWrite wetContext demoHost) = demoHost" by blast
  from h1 h2 h3 h4 e1 e2 s1 s2 show ?thesis by blast
qed

text \<open>
  Claim C4, as amended. On a host with an absolute working directory, a path handed to
  \<open>file-read\<close> or \<open>file-write\<close> through the gateway whose resolution against the
  sandbox directory does not lie within the resolved sandbox directory (the directory
  itself counting as within) contains two consecutive dots; the call is answered with
  status 400 and the issue \<open>Path traversal not allowed\<close> of the tool's input schema, and
  the host, with its log of file-system operations, is returned as it was: the file
  system is not touched. An executor handed a path whose resolved form does not start
  with the resolved sandbox directory returns the failure
  \<open>Path escapes sandbox directory\<close> and leaves the host as it was.
\<close>

theorem escaping_path_rejected:
  "(workingDirectory (host st) \<noteq> [] \<and> hd (workingDirectory (host st)) = CHR ''/''
     \<and> \<not> liesWithin (pathResolve (workingDirectory (host st)) (SANDBOX_DIR (host st)))
           (pathResolve (workingDirectory (host st))
              (pathJoin [SANDBOX_DIR (host st), pathNormalize p]))
     \<and> ToolCallRequestSchema body = Inr req
     \<and> (req_tool req = ''file-read'' \<or> req_tool req = ''file-write'')
     \<and> member (req_inputs req) ''path'' = Some (JStr p)
    \<longrightarrow> strIncludes p ''..''
        \<and> (\<exists>issues. fst (handleCall toolRegistry env body st)
               = \<lparr>status = 400, payload = InvalidToolInputs (req_tool req) issues\<rparr>
             \<and> ZodIssue [''path''] ''Path traversal not allowed'' \<in> set issues)
        \<and> host (snd (handleCall toolRegistry env body st)) = host st)
   \<and> (\<not> startsWith
          (pathResolve (workingDirectory h) (pathJoin [SANDBOX_DIR h, pathNormalize (fr_path rd)]))
          (pathResolve (workingDirectory h) (SANDBOX_DIR h))
      \<longrightarrow> fileReadExecutor rd context h = (Inr (failure ''Path escapes sandbox directory''), h))
   \<and> (\<not> startsWith
          (pathResolve (workingDirectory h) (pathJoin [SANDBOX_DIR h, pathNormalize (fw_path wr)]))
          (pathResolve (workingDirectory h) (SANDBOX_DIR h))
      \<longrightarrow> fileWriteExecutor wr context h = (Inr (failure ''Path escapes sandbox directory''), h))"
proof (intro conjI impI)
  assume a: "workingDirectory (host st) \<noteq> [] \<and> hd (workingDirectory (host st)) = CHR ''/''
     \<and> \<not> liesWithin (pathResolve (workingDirectory (host st)) (SANDBOX_DIR (host st)))
           (pathResolve (workingDirectory (host st))
              (pathJoin [SANDBOX_DIR (host st), pathNormalize p]))
     \<and> ToolCallRequestSchema body = Inr req
     \<and> (req_tool req = ''file-read'' \<or> req_tool req = ''file-write'')
     \<and> member (req_inputs req) ''path'' = Some (JStr p)"
  show dots: "strIncludes p ''..''"
  proof (rule ccontr)
    assume "\<not> strIncludes p ''..''"
    with a undotted_path_stays_inside [of "host st" p] show False by blast
  qed
  from a have which: "req_tool req = ''file-read'' \<or> req_tool req = ''file-write''" by blast
  have rejected: "\<exists>issues. handleCall toolRegistry env body st
               = (\<lparr>status = 400, payload = InvalidToolInputs (req_tool req) issues\<rparr>, st)
             \<and> ZodIssue [''path''] ''Path traversal not allowed'' \<in> set issues"
    using which
  proof
    assume t: "req_tool req = ''file-read''"
    from a dots fileRead_rejects_traversal obtain issues
      where "fileReadInputSchema (req_inputs req) = Inl issues"
        and "ZodIssue [''path''] ''Path traversal not allowed'' \<in> set issues" by blast
    with a t show ?thesis
      by (simp add: handleCall_def Let_def registryGet_toolRegistry fileReadTool_schema)
  next
    assume t: "req_tool req = ''file-write''"
    from a dots fileWrite_rejects_traversal obtain issues
      where "fileWriteInputSchema (req_inputs req) = Inl issues"
        and "ZodIssue [''path''] ''Path traversal not allowed'' \<in> set issues" by blast
    with a t show ?thesis
      by (simp add: handleCall_def Let_def registryGet_toolRegistry fileWriteTool_schema)
  qed
  then obtain issues where r: "handleCall toolRegistry env body st
               = (\<lparr>status = 400, payload = InvalidToolInputs (req_tool req) issues\<rparr>, st)"
    and i: "ZodIssue [''path''] ''Path traversal not allowed'' \<in> set issues" by blast
  from r have "fst (handleCall toolRegistry env body st)
               = \<lparr>status = 400, payload = InvalidToolInputs (req_tool req) issues\<rparr>"
    by simp
  with i show "\<exists>issues. fst (handleCall toolRegistry env body st)
               = \<lparr>status = 400, payload = InvalidToolInputs (req_tool req) issues\<rparr>
             \<and> ZodIssue [''path''] ''Path traversal not allowed'' \<in> set issues"
    by blast
  from r show "host (snd (handleCall toolRegistry env body st)) = host st"
    by simp
next
  assume "\<not> startsWith
          (pathResolve (workingDirectory h) (pathJoin [SANDBOX_DIR h, pathNormalize (fr_path rd)]))
          (pathResolve (workingDirectory h) (SANDBOX_DIR h))"
  then show "fileReadExecutor rd context h = (Inr (failure ''Path escapes sandbox directory''), h)"
    by (simp add: fileReadExecutor_def Let_def)
next
  assume "\<not> startsWith
          (pathResolve (workingDirectory h) (pathJoin [SANDBOX_DIR h, pathNormalize (fw_path wr)]))
          (pathResolve (workingDirectory h) (SANDBOX_DIR h))"
  then show "fileWriteExecutor wr context h = (Inr (failure ''Path escapes sandbox directory''), h)"
    by (simp add: fileWriteExecutor_def Let_def)
qed

theorem escaping_path_rejected_witness:
  "hd (workingDirectory (host demoState)) = CHR ''/''
   \<and> \<not> liesWithin (sandboxRoot (host demoState)) (fullPathOf (host demoState) ''../etc/passwd'')
   \<and> ToolCallRequestSchema passwdCall = Inr passwdRequest
   \<and> member (req_inputs passwdRequest) ''path'' = Some (JStr ''../etc/passwd'')
   \<and> strIncludes ''../etc/passwd'' ''..''
   \<and> status (fst (handleCall toolRegistry demoEnv passwdCall demoState)) = 400
   \<and> host (snd (handleCall toolRegistry demoEnv passwdCall demoState)) = host demoState
   \<and> fsLog (host demoState) = []"
proof -
  have h0: "workingDirectory (host demoState) \<noteq> []" by code_simp
  have h1: "hd (workingDirectory (host demoState)) = CHR ''/''" by code_simp
  have h2: "\<not> liesWithin (sandboxRoot (host demoState))
                (fullPathOf (host demoState) ''../etc/passwd'')" by code_simp
  have h3: "ToolCallRequestSchema passwdCall = Inr passwdRequest" by code_simp
  have h4: "req_tool passwdRequest = ''file-read'' \<or> req_tool passwdRequest = ''file-write''"
    by code_simp
  have h5: "member (req_inputs passwdRequest) ''path'' = Some (JStr ''../etc/passwd'')"
    by code_simp
  have h6: "fsLog (host demoState) = []" by code_simp
  from h0 h1 h2 h3 h4 h5
    escaping_path_rejected [of demoState "''../etc/passwd''" passwdCall passwdRequest demoEnv]
  have concl: "strIncludes ''../etc/passwd'' ''..''
        \<and> (\<exists>issues. fst (handleCall toolRegistry demoEnv passwdCall demoState)
               = \<lparr>status = 400, payload = InvalidToolInputs (req_tool passwdRequest) issues\<rparr>
             \<and> ZodIssue [''path''] ''Path traversal not allowed'' \<in> set issues)
        \<and> host (snd (handleCall toolRegistry demoEnv passwdCall demoState)) = host demoState"
    unfolding sandboxRoot_def fullPathOf_def by blast
  then obtain issues where "fst (handleCall toolRegistry demoEnv passwdCall demoState)
               = \<lparr>status = 400, payload = InvalidToolInputs (req_tool passwdRequest) issues\<rparr>"
    by blast
  then have "status (fst (handleCall toolRegistry demoEnv passwdCall demoState)) = 400"
    by simp
  with h1 h2 h3 h5 h6 concl show ?thesis by blast
qed

text \<open>
  Claim C4 as stated fails in two places. The call with \<open>../etc/passwd\<close> is answered as
  an input-validation failure by the schema, not as a path-escape failure by the executor.
  And the path \<open>.\<close> resolves to the sandbox directory itself, which is not strictly
  within it, yet passes both the schema and the executor's prefix test: the executor
  calls \<open>readFile\<close> on the directory and reports the read failure.
\<close>

theorem traversal_is_a_validation_failure:
  "\<not> liesStrictlyWithin (sandboxRoot demoHost) (fullPathOf demoHost ''../etc/passwd'')
   \<and> fst (handleCall toolRegistry demoEnv passwdCall demoState)
       = \<lparr>status = 400,
          payload = InvalidToolInputs ''file-read''
                      [ZodIssue [''path''] ''Path traversal not allowed'']\<rparr>
   \<and> \<not> liesStrictlyWithin (sandboxRoot demoHost) (fullPathOf demoHost ''.'')
   \<and> fsLog (host (snd (handleCall toolRegistry demoEnv rootCall demoState)))
       = [FsRead ''/tmp/mcp-sandbox'']
   \<and> fst (handleCall toolRegistry demoEnv rootCall demoState)
       = \<lparr>status = 422,
          payload = Response
            \<lparr>tcr_tool = ''file-read'', tcr_success = False, tcr_result = None,
             tcr_error = Some ''Failed to read file: EISDIR: illegal operation on a directory, read'',
             tcr_dryRun = False, tcr_timestamp = 101, tcr_requestId = ''req-1'',
             tcr_simulatedAction = None\<rparr>\<rparr>"
  by code_simp

text \<open>
  The executor's test is a prefix test on strings. Handed (not through the gateway, whose
  schema rejects the dots) a path into a sibling directory whose name continues the
  sandbox's, it reads the file there.
\<close>

lemma sibling_directory_is_read:
  "\<not> liesWithin (sandboxRoot demoHost) (fullPathOf demoHost (fr_path siblingRead))
   \<and> startsWith (fullPathOf demoHost (fr_path siblingRead)) (sandboxRoot demoHost)
   \<and> fsLog (snd (fileReadExecutor siblingRead wetContext demoHost))
       = [FsRead ''/tmp/mcp-sandbox-evil/x'']"
  by code_simp

text \<open>
  Claim C5, as amended. Each of the three executors always returns a result (none lets an
  exception escape); the result carries data exactly when it is a success and an error
  text exactly when it is not. A dry-run success is no exception: it carries data beside
  its simulated action.
\<close>

theorem executor_result_shape:
  "(\<exists>r. fst (systemInfoExecutor si context h) = Inr r
        \<and> (ter_data r \<noteq> None) = ter_success r \<and> (ter_error r \<noteq> None) = (\<not> ter_success r))
   \<and> (\<exists>r. fst (fileReadExecutor rd context h) = Inr r
        \<and> (ter_data r \<noteq> None) = ter_success r \<and> (ter_error r \<noteq> None) = (\<not> ter_success r))
   \<and> (\<exists>r. fst (fileWriteExecutor wr context h) = Inr r
        \<and> (ter_data r \<noteq> None) = ter_success r \<and> (ter_error r \<noteq> None) = (\<not> ter_success r))"
proof (intro conjI)
  show "\<exists>r. fst (systemInfoExecutor si context h) = Inr r
        \<and> (ter_data r \<noteq> None) = ter_success r \<and> (ter_error r \<noteq> None) = (\<not> ter_success r)"
    by (simp add: systemInfoExecutor_def Let_def)
next
  show "\<exists>r. fst (fileReadExecutor rd context h) = Inr r
        \<and> (ter_data r \<noteq> None) = ter_success r \<and> (ter_error r \<noteq> None) = (\<not> ter_success r)"
    by (simp add: fileReadExecutor_def readFile_def Let_def failure_def
        split: prod.splits sum.splits)
next
  show "\<exists>r. fst (fileWriteExecutor wr context h) = Inr r
        \<and> (ter_data r \<noteq> None) = ter_success r \<and> (ter_error r \<noteq> None) = (\<not> ter_success r)"
    by (simp add: fileWriteExecutor_def Let_def failure_def)
qed

text \<open>
  Claim C5 as stated wants the data absent on a pure simulation. The simulated write
  returns the path, the byte count and the mode as data.
\<close>

theorem simulated_write_carries_data:
  "dryRun dryContext
   \<and> fst (fileWriteExecutor smallWrite dryContext demoHost)
       = Inr \<lparr>ter_success = True,
              ter_data = Some \<lparr>wo_path = ''o.txt'', wo_bytesWritten = 2, wo_mode = Overwrite\<rparr>,
              ter_error = None,
              ter_simulatedAction = Some ''Would overwrite 2 bytes to /tmp/mcp-sandbox/o.txt''\<rparr>"
  by code_simp

section \<open>Properties of the constrained agents\<close>

text \<open>
  A tool wrapper forwards every invocation to the gateway, under the tool name it was
  created for.
\<close>

lemma wrapper_forwards:
  "\<exists>r g'. dst_func (createMCPToolWrapper post stringify toolName agentName) inputs (sent, g)
     = (r, (sent @ [\<lparr>mq_tool = toolName, mq_inputs = inputs,
                     mq_intent = Some (''Agent '' @ [CHR 0x22] @ agentName @ [CHR 0x22]
                                       @ '' calling '' @ toolName)\<rparr>], g'))"
  by (auto simp: createMCPToolWrapper_def callTool_def Let_def split: prod.splits sum.splits)

text \<open>
  What the construction of an agent does give. \<open>canUseTool\<close> is membership in the
  allow-list the agent was created with. The tools of the agent are the wrappers of the
  entries of its allow-list, one per entry and in the order of the list. Each of them
  forwards every invocation to the gateway, with the inputs it was given, under a name
  for which \<open>canUseTool\<close> holds.
\<close>

lemma agent_tools_from_allow_list:
  "canUseTool (createAgent post stringify config) toolName
     = (toolName \<in> set (cfg_allowedTools config))
   \<and> ca_tools (createAgent post stringify config)
       = map (\<lambda>t. createMCPToolWrapper post stringify t (cfg_name config))
           (cfg_allowedTools config)
   \<and> (\<forall>w \<in> set (ca_tools (createAgent post stringify config)).
        \<forall>inputs sent g. \<exists>request.
           fst (snd (dst_func w inputs (sent, g))) = sent @ [request]
           \<and> mq_inputs request = inputs
           \<and> canUseTool (createAgent post stringify config) (mq_tool request))"
proof (intro conjI ballI allI)
  show "canUseTool (createAgent post stringify config) toolName
          = (toolName \<in> set (cfg_allowedTools config))"
    by (simp add: canUseTool_def createAgent_def Let_def)
next
  show "ca_tools (createAgent post stringify config)
       = map (\<lambda>t. createMCPToolWrapper post stringify t (cfg_name config))
           (cfg_allowedTools config)"
    by (simp add: createAgent_def createMCPToolWrappers_def Let_def)
next
  fix w inputs sent g
  assume "w \<in> set (ca_tools (createAgent post stringify config))"
  then obtain t where t: "t \<in> set (cfg_allowedTools config)"
    and w: "w = createMCPToolWrapper post stringify t (cfg_name config)"
    by (auto simp: createAgent_def createMCPToolWrappers_def Let_def)
  from wrapper_forwards [of post stringify t "cfg_name config" inputs sent g]
  obtain r g' where "dst_func w inputs (sent, g)
     = (r, (sent @ [\<lparr>mq_tool = t, mq_inputs = inputs,
                     mq_intent = Some (''Agent '' @ [CHR 0x22] @ cfg_name config @ [CHR 0x22]
                                       @ '' calling '' @ t)\<rparr>], g'))"
    unfolding w by blast
  with t show "\<exists>request.
           fst (snd (dst_func w inputs (sent, g))) = sent @ [request]
           \<and> mq_inputs request = inputs
           \<and> canUseTool (createAgent post stringify config) (mq_tool request)"
    by (simp add: canUseTool_def createAgent_def Let_def)
qed


end
